theory Spec2Isabelle
  imports Main "HOL-Library.Word"
begin

section \<open>Strings of the script\<close>

text \<open>
  A JavaScript string is a sequence of 16-bit code units. String literals of the script
  are written through \<open>utf16\<close>, which is exact for the ASCII literals used here.
\<close>

type_synonym code_unit = "16 word"
type_synonym jsstring = "code_unit list"

definition utf16 :: "string \<Rightarrow> jsstring" where
  "utf16 s = map of_char s"

text \<open>
  \<open>String.prototype.trim\<close> removes WhiteSpace and LineTerminator code points from both
  ends: TAB, VT, FF, SP, NBSP, ZWNBSP, the space separators of Unicode, and LF, CR, LS, PS.
\<close>

definition is_white_space :: "code_unit \<Rightarrow> bool" where
  "is_white_space c \<longleftrightarrow>
     c = 0x09 \<or> c = 0x0A \<or> c = 0x0B \<or> c = 0x0C \<or> c = 0x0D \<or> c = 0x20 \<or> c = 0xA0 \<or>
     c = 0x1680 \<or> (0x2000 \<le> c \<and> c \<le> 0x200A) \<or> c = 0x2028 \<or> c = 0x2029 \<or>
     c = 0x202F \<or> c = 0x205F \<or> c = 0x3000 \<or> c = 0xFEFF"

definition trim :: "jsstring \<Rightarrow> jsstring" where
  "trim s = rev (dropWhile is_white_space (rev (dropWhile is_white_space s)))"

section \<open>The document tree\<close>

text \<open>
  The nodes the script creates and the nodes markup can produce inside the list container:
  text, comments, and elements with their local name, their attributes in order, and their
  children in order.
\<close>

datatype node =
    Text jsstring
  | Comment jsstring
  | Element jsstring "(jsstring \<times> jsstring) list" "node list"

definition to_ascii_upper :: "code_unit \<Rightarrow> code_unit" where
  "to_ascii_upper c = (if 0x61 \<le> c \<and> c \<le> 0x7A then c - 0x20 else c)"

text \<open>\<open>tagName\<close> of an HTML element is its local name in ASCII upper case.\<close>

fun tagName :: "node \<Rightarrow> jsstring" where
  "tagName (Element nm as cs) = map to_ascii_upper nm"
| "tagName (Text t) = []"
| "tagName (Comment d) = []"

fun textContent :: "node \<Rightarrow> jsstring" where
  "textContent (Text t) = t"
| "textContent (Comment d) = []"
| "textContent (Element nm as cs) = concat (map textContent cs)"

fun appendChild :: "node \<Rightarrow> node \<Rightarrow> node" where
  "appendChild (Element nm as cs) c = Element nm as (cs @ [c])"
| "appendChild n c = n"

subsection \<open>The class attribute and \<open>classList\<close>\<close>

definition class_attr :: jsstring where
  "class_attr = utf16 ''class''"

fun getAttribute :: "jsstring \<Rightarrow> node \<Rightarrow> jsstring option" where
  "getAttribute k (Element nm as cs) = map_of as k"
| "getAttribute k n = None"

text \<open>\<open>setAttribute\<close> changes an attribute in place, or appends it when it is absent.\<close>

fun set_attr :: "jsstring \<Rightarrow> jsstring \<Rightarrow> (jsstring \<times> jsstring) list \<Rightarrow> (jsstring \<times> jsstring) list" where
  "set_attr k v [] = [(k, v)]"
| "set_attr k v ((k', v') # as) = (if k' = k then (k, v) # as else (k', v') # set_attr k v as)"

fun setAttribute :: "jsstring \<Rightarrow> jsstring \<Rightarrow> node \<Rightarrow> node" where
  "setAttribute k v (Element nm as cs) = Element nm (set_attr k v as) cs"
| "setAttribute k v n = n"

definition is_ascii_whitespace :: "code_unit \<Rightarrow> bool" where
  "is_ascii_whitespace c \<longleftrightarrow> c = 0x09 \<or> c = 0x0A \<or> c = 0x0C \<or> c = 0x0D \<or> c = 0x20"

text \<open>
  Splitting on ASCII whitespace: \<open>w\<close> is the token read so far. The token set of a class
  attribute is the split value with later duplicates dropped; it is written back with
  single spaces between the tokens.
\<close>

fun split_ws :: "jsstring \<Rightarrow> jsstring \<Rightarrow> jsstring list" where
  "split_ws w [] = (if w = [] then [] else [w])"
| "split_ws w (c # cs) =
     (if is_ascii_whitespace c then (if w = [] then split_ws [] cs else w # split_ws [] cs)
      else split_ws (w @ [c]) cs)"

definition ordered_set :: "jsstring list \<Rightarrow> jsstring list" where
  "ordered_set ts = rev (remdups (rev ts))"

fun join_spaces :: "jsstring list \<Rightarrow> jsstring" where
  "join_spaces [] = []"
| "join_spaces [t] = t"
| "join_spaces (t # ts) = t @ [0x20] @ join_spaces ts"

definition classList :: "node \<Rightarrow> jsstring list" where
  "classList n = (case getAttribute class_attr n of None \<Rightarrow> [] | Some v \<Rightarrow> ordered_set (split_ws [] v))"

definition classList_toggle :: "jsstring \<Rightarrow> node \<Rightarrow> node" where
  "classList_toggle tok n =
     (if tok \<in> set (classList n)
      then setAttribute class_attr (join_spaces (removeAll tok (classList n))) n
      else setAttribute class_attr (join_spaces (classList n @ [tok])) n)"

subsection \<open>Reading \<open>innerHTML\<close>: serialisation\<close>

text \<open>
  The fragment serialisation of the HTML Standard. Text is escaped unless its parent is a
  raw text element; attribute values are escaped in attribute mode; a void element has
  neither children nor an end tag in the output.
\<close>

fun escape_unit :: "bool \<Rightarrow> code_unit \<Rightarrow> jsstring" where
  "escape_unit attribute_mode c =
     (if c = 0x26 then utf16 ''&amp;''
      else if c = 0xA0 then utf16 ''&nbsp;''
      else if c = 0x3C then utf16 ''&lt;''
      else if c = 0x3E then utf16 ''&gt;''
      else if attribute_mode \<and> c = 0x22 then utf16 ''&quot;''
      else [c])"

definition escape :: "bool \<Rightarrow> jsstring \<Rightarrow> jsstring" where
  "escape attribute_mode s = concat (map (escape_unit attribute_mode) s)"

definition void_elements :: "jsstring list" where
  "void_elements = map utf16 [''area'', ''base'', ''basefont'', ''bgsound'', ''br'', ''col'',
     ''embed'', ''frame'', ''hr'', ''img'', ''input'', ''keygen'', ''link'', ''meta'', ''param'',
     ''source'', ''track'', ''wbr'']"

definition raw_text_elements :: "jsstring list" where
  "raw_text_elements = map utf16 [''style'', ''script'', ''xmp'', ''iframe'', ''noembed'',
     ''noframes'', ''plaintext'', ''noscript'']"

definition serialize_attr :: "jsstring \<times> jsstring \<Rightarrow> jsstring" where
  "serialize_attr a = [0x20] @ fst a @ utf16 ''=\"'' @ escape True (snd a) @ utf16 ''\"''"

fun serialize_node :: "jsstring \<Rightarrow> node \<Rightarrow> jsstring" where
  "serialize_node parent (Text t) = (if parent \<in> set raw_text_elements then t else escape False t)"
| "serialize_node parent (Comment d) = utf16 ''<!--'' @ d @ utf16 ''-->''"
| "serialize_node parent (Element nm as cs) =
     [0x3C] @ nm @ concat (map serialize_attr as) @ [0x3E] @
     (if nm \<in> set void_elements then []
      else concat (map (serialize_node nm) cs) @ utf16 ''</'' @ nm @ [0x3E])"

definition innerHTML :: "jsstring \<Rightarrow> node list \<Rightarrow> jsstring" where
  "innerHTML parent cs = concat (map (serialize_node parent) cs)"

section \<open>The page\<close>

text \<open>
  The state the script works on: the value of the input field, the child nodes of the list
  container, the local storage of the origin, and the effects of the script that leave the
  page in the order they happen: a blocking alert, a call of \<open>localStorage.setItem\<close>
  with its key and value, an exception no handler catches.

  Writing \<open>innerHTML\<close> runs the fragment parser of the browser, which is not part of
  the script: it is the parameter \<open>P\<close>, taking the local name of the context element and
  the markup.

  \<open>localStorage.setItem\<close> stores the value or throws (the quota is exceeded, storage is
  disabled). Which calls succeed is the browser's business too: the parameter \<open>S\<close> says
  of the \<open>n\<close>-th call since the page was loaded, counted from 0, whether it succeeds.
\<close>

datatype effect = Alert jsstring | SetItem jsstring jsstring | Uncaught jsstring

record page =
  input_value :: jsstring
  listContainer :: "node list"
  localStorage :: "jsstring \<rightharpoonup> jsstring"
  effects :: "effect list"

type_synonym fragment_parser = "jsstring \<Rightarrow> jsstring \<Rightarrow> node list"

type_synonym storage_behaviour = "nat \<Rightarrow> bool"

text \<open>The number of calls of \<open>setItem\<close> the page has made.\<close>

definition writes :: "page \<Rightarrow> nat" where
  "writes st =
     length (filter (\<lambda>e. case e of SetItem k v \<Rightarrow> True | Alert m \<Rightarrow> False | Uncaught x \<Rightarrow> False)
       (effects st))"

definition createElement :: "jsstring \<Rightarrow> node" where
  "createElement nm = Element nm [] []"

fun set_innerHTML :: "fragment_parser \<Rightarrow> jsstring \<Rightarrow> node \<Rightarrow> node" where
  "set_innerHTML P markup (Element nm as cs) = Element nm as (P nm markup)"
| "set_innerHTML P markup n = n"

definition data_key :: jsstring where
  "data_key = utf16 ''data''"

text \<open>
  Modelled from the spec: the markup of the page is not among the sources. The list
  container is taken to be a \<open>ul\<close> element, the parent of \<open>li\<close> items, with no children
  of its own when the page is loaded.
\<close>

definition container_name :: jsstring where
  "container_name = utf16 ''ul''"

subsection \<open>\<open>saveData\<close>, \<open>showList\<close>, \<open>addItem\<close>\<close>

text \<open>
  \<open>saveData\<close> is the last statement of every handler that calls it, and the script has
  no \<open>try\<close>: when \<open>setItem\<close> throws, storage keeps what it had, the exception goes
  uncaught, and the changes the handler made to the page before the call stay.
\<close>

definition saveData :: "storage_behaviour \<Rightarrow> page \<Rightarrow> page" where
  "saveData S st =
     (if S (writes st)
      then st\<lparr>localStorage :=
                (localStorage st)(data_key \<mapsto> innerHTML container_name (listContainer st)),
              effects := effects st @ [SetItem data_key (innerHTML container_name (listContainer st))]\<rparr>
      else st\<lparr>effects := effects st @
                [SetItem data_key (innerHTML container_name (listContainer st)),
                 Uncaught (utf16 ''QuotaExceededError'')]\<rparr>)"

text \<open>\<open>if (savedData)\<close> is false for \<open>null\<close> and for the empty string.\<close>

definition showList :: "fragment_parser \<Rightarrow> page \<Rightarrow> page" where
  "showList P st =
     (case localStorage st data_key of
        None \<Rightarrow> st
      | Some savedData \<Rightarrow>
          if savedData \<noteq> [] then st\<lparr>listContainer := P container_name savedData\<rparr> else st)"

definition addItem :: "fragment_parser \<Rightarrow> storage_behaviour \<Rightarrow> page \<Rightarrow> page" where
  "addItem P S st =
     (if trim (input_value st) = []
      then st\<lparr>effects := effects st @ [Alert (utf16 ''You must write something!'')]\<rparr>
      else
        let li = createElement (utf16 ''li'');
            li = set_innerHTML P (input_value st) li;
            span = createElement (utf16 ''span'');
            span = set_innerHTML P [0xD7] span;
            span = setAttribute class_attr (utf16 ''close'') span;
            li = appendChild li span;
            st = st\<lparr>listContainer := listContainer st @ [li]\<rparr>;
            st = st\<lparr>input_value := []\<rparr>
        in saveData S st)"

subsection \<open>The click handler of the container\<close>

text \<open>
  The target of a click is an element inside the container, named by the path of child
  indices that leads to it from the container; the empty path is the container itself,
  which the handler ignores, as it ignores every element that is neither an \<open>li\<close> nor a
  \<open>span\<close>. A path that leads to no element is no click at all.
\<close>

fun node_at :: "nat list \<Rightarrow> node list \<Rightarrow> node option" where
  "node_at [] ns = None"
| "node_at [i] ns = (if i < length ns then Some (ns ! i) else None)"
| "node_at (i # p) ns =
     (if i < length ns
      then (case ns ! i of Element nm as cs \<Rightarrow> node_at p cs | _ \<Rightarrow> None)
      else None)"

fun update_at :: "(node \<Rightarrow> node) \<Rightarrow> nat list \<Rightarrow> node list \<Rightarrow> node list" where
  "update_at f [] ns = ns"
| "update_at f [i] ns = (if i < length ns then ns[i := f (ns ! i)] else ns)"
| "update_at f (i # p) ns =
     (if i < length ns
      then (case ns ! i of Element nm as cs \<Rightarrow> ns[i := Element nm as (update_at f p cs)] | _ \<Rightarrow> ns)
      else ns)"

text \<open>
  \<open>remove_at\<close> takes the node at a path out of its parent. At the empty path the node to
  remove is the container itself: it leaves the document and keeps its children.
\<close>

fun remove_at :: "nat list \<Rightarrow> node list \<Rightarrow> node list" where
  "remove_at [] ns = ns"
| "remove_at [i] ns = take i ns @ drop (Suc i) ns"
| "remove_at (i # p) ns =
     (if i < length ns
      then (case ns ! i of Element nm as cs \<Rightarrow> ns[i := Element nm as (remove_at p cs)] | _ \<Rightarrow> ns)
      else ns)"

definition on_click :: "storage_behaviour \<Rightarrow> nat list \<Rightarrow> page \<Rightarrow> page" where
  "on_click S target st =
     (case node_at target (listContainer st) of
        Some (Element nm as cs) \<Rightarrow>
          if tagName (Element nm as cs) = utf16 ''LI''
          then saveData S (st\<lparr>listContainer :=
                 update_at (classList_toggle (utf16 ''checked'')) target (listContainer st)\<rparr>)
          else if tagName (Element nm as cs) = utf16 ''SPAN''
          then saveData S (st\<lparr>listContainer := remove_at (butlast target) (listContainer st)\<rparr>)
          else st
      | _ \<Rightarrow> st)"

subsection \<open>Events\<close>

text \<open>
  What the user does: edit the input field, press a key in it, click in the list. The
  keypress handler calls \<open>addItem\<close> on Enter and nothing else.
\<close>

datatype event = Edit jsstring | KeyPress jsstring | Click "nat list"

definition on_keypress ::
  "fragment_parser \<Rightarrow> storage_behaviour \<Rightarrow> jsstring \<Rightarrow> page \<Rightarrow> page" where
  "on_keypress P S key st = (if key = utf16 ''Enter'' then addItem P S st else st)"

fun dispatch :: "fragment_parser \<Rightarrow> storage_behaviour \<Rightarrow> page \<Rightarrow> event \<Rightarrow> page" where
  "dispatch P S st (Edit s) = st\<lparr>input_value := s\<rparr>"
| "dispatch P S st (KeyPress key) = on_keypress P S key st"
| "dispatch P S st (Click target) = on_click S target st"

definition run :: "fragment_parser \<Rightarrow> storage_behaviour \<Rightarrow> event list \<Rightarrow> page \<Rightarrow> page" where
  "run P S evs st = foldl (dispatch P S) st evs"

text \<open>Loading the page: the script runs \<open>showList\<close> once on the page as its markup gives it.\<close>

definition page_load :: "fragment_parser \<Rightarrow> (jsstring \<rightharpoonup> jsstring) \<Rightarrow> page" where
  "page_load P storage =
     showList P \<lparr>input_value = [], listContainer = [], localStorage = storage, effects = []\<rparr>"

subsection \<open>The list as the specification sees it\<close>

text \<open>
  An item is a child of the container. Its checked flag is the presence of the token
  \<open>checked\<close> in its class list; its text is the text of its children other than the
  delete affordance, a \<open>span\<close> of class \<open>close\<close>.
\<close>

definition is_close :: "node \<Rightarrow> bool" where
  "is_close n \<longleftrightarrow> tagName n = utf16 ''SPAN'' \<and> getAttribute class_attr n = Some (utf16 ''close'')"

fun item_text :: "node \<Rightarrow> jsstring" where
  "item_text (Element nm as cs) = concat (map textContent (filter (\<lambda>c. \<not> is_close c) cs))"
| "item_text n = textContent n"

definition item_checked :: "node \<Rightarrow> bool" where
  "item_checked n \<longleftrightarrow> utf16 ''checked'' \<in> set (classList n)"

definition items :: "page \<Rightarrow> (jsstring \<times> bool) list" where
  "items st = map (\<lambda>n. (item_text n, item_checked n)) (listContainer st)"

section \<open>The fragment parser on simple markup\<close>

text \<open>
  What the fragment parser of the HTML Standard returns, in a context element whose
  insertion mode is "in body" (\<open>ul\<close>, \<open>li\<close>, \<open>span\<close>), on markup made of: characters
  other than \<open><\<close>, \<open>&\<close>, NUL and CR; the character references \<open>&amp;\<close>, \<open>&lt;\<close>,
  \<open>&gt;\<close>, \<open>&nbsp;\<close>, \<open>&quot;\<close>; and the tags \<open><li>\<close>, \<open><span>\<close>, \<open></li>\<close>,
  \<open></span>\<close>, a start tag with at most one attribute written \<open> class="..."\<close>. This
  covers everything the serialisation of a list of items contains. On any other markup
  the result is \<open>None\<close>: the markup is outside what is described here.
\<close>

datatype token = Character code_unit | StartTag jsstring "(jsstring \<times> jsstring) list" | EndTag jsstring

fun strip_prefix :: "jsstring \<Rightarrow> jsstring \<Rightarrow> jsstring option" where
  "strip_prefix [] s = Some s"
| "strip_prefix (a # p) [] = None"
| "strip_prefix (a # p) (b # s) = (if a = b then strip_prefix p s else None)"

definition lex_attr_value :: "jsstring \<Rightarrow> (jsstring \<times> jsstring) option" where
  "lex_attr_value s =
     (let v = takeWhile (\<lambda>c. c \<noteq> 0x22) s; r = dropWhile (\<lambda>c. c \<noteq> 0x22) s
      in if r = [] \<or> 0x26 \<in> set v \<or> 0x3C \<in> set v \<or> 0x3E \<in> set v \<or> 0 \<in> set v \<or> 0x0D \<in> set v
         then None else Some (v, tl r))"

definition lex_tag_rest :: "jsstring \<Rightarrow> jsstring \<Rightarrow> (token \<times> jsstring) option" where
  "lex_tag_rest nm s =
     (case strip_prefix [0x3E] s of
        Some r \<Rightarrow> Some (StartTag nm [], r)
      | None \<Rightarrow>
         (case strip_prefix (utf16 '' class=\"'') s of
            None \<Rightarrow> None
          | Some r \<Rightarrow>
             (case lex_attr_value r of
                None \<Rightarrow> None
              | Some (v, r') \<Rightarrow>
                 (case strip_prefix [0x3E] r' of
                    None \<Rightarrow> None
                  | Some r'' \<Rightarrow> Some (StartTag nm [(class_attr, v)], r'')))))"

definition lex_tag :: "jsstring \<Rightarrow> (token \<times> jsstring) option" where
  "lex_tag s =
     (case strip_prefix (utf16 ''/li>'') s of
        Some r \<Rightarrow> Some (EndTag (utf16 ''li''), r)
      | None \<Rightarrow>
     (case strip_prefix (utf16 ''/span>'') s of
        Some r \<Rightarrow> Some (EndTag (utf16 ''span''), r)
      | None \<Rightarrow>
     (case strip_prefix (utf16 ''li'') s of
        Some r \<Rightarrow> lex_tag_rest (utf16 ''li'') r
      | None \<Rightarrow>
     (case strip_prefix (utf16 ''span'') s of
        Some r \<Rightarrow> lex_tag_rest (utf16 ''span'') r
      | None \<Rightarrow> None))))"

definition lex_reference :: "jsstring \<Rightarrow> (token \<times> jsstring) option" where
  "lex_reference s =
     (case strip_prefix (utf16 ''amp;'') s of
        Some r \<Rightarrow> Some (Character 0x26, r)
      | None \<Rightarrow>
     (case strip_prefix (utf16 ''lt;'') s of
        Some r \<Rightarrow> Some (Character 0x3C, r)
      | None \<Rightarrow>
     (case strip_prefix (utf16 ''gt;'') s of
        Some r \<Rightarrow> Some (Character 0x3E, r)
      | None \<Rightarrow>
     (case strip_prefix (utf16 ''nbsp;'') s of
        Some r \<Rightarrow> Some (Character 0xA0, r)
      | None \<Rightarrow>
     (case strip_prefix (utf16 ''quot;'') s of
        Some r \<Rightarrow> Some (Character 0x22, r)
      | None \<Rightarrow> None)))))"

lemma strip_prefix_length: "strip_prefix p s = Some r \<Longrightarrow> length r \<le> length s"
  by (induction p s rule: strip_prefix.induct) (auto split: if_splits)

lemma lex_attr_value_length: "lex_attr_value s = Some (v, r) \<Longrightarrow> length r \<le> length s"
proof -
  assume a: "lex_attr_value s = Some (v, r)"
  then have "r = tl (dropWhile (\<lambda>c. c \<noteq> 0x22) s)"
    by (auto simp: lex_attr_value_def Let_def split: if_splits)
  moreover have "length (dropWhile (\<lambda>c. c \<noteq> 0x22) s) \<le> length s"
    by (rule length_dropWhile_le)
  ultimately show ?thesis by simp
qed

lemma lex_tag_rest_length: "lex_tag_rest nm s = Some (t, r) \<Longrightarrow> length r \<le> length s"
  unfolding lex_tag_rest_def
  by (auto split: option.splits dest!: strip_prefix_length lex_attr_value_length)

lemma lex_tag_length: "lex_tag s = Some (t, r) \<Longrightarrow> length r \<le> length s"
  unfolding lex_tag_def
  by (auto split: option.splits dest!: strip_prefix_length lex_tag_rest_length)

lemma lex_reference_length: "lex_reference s = Some (t, r) \<Longrightarrow> length r \<le> length s"
  unfolding lex_reference_def
  by (auto split: option.splits dest!: strip_prefix_length)

function tokenize :: "jsstring \<Rightarrow> token list option" where
  "tokenize [] = Some []"
| "tokenize (c # cs) =
     (if c = 0x3C then
        (case lex_tag cs of
           None \<Rightarrow> None
         | Some (t, r) \<Rightarrow> map_option ((#) t) (tokenize r))
      else if c = 0x26 then
        (case lex_reference cs of
           None \<Rightarrow> None
         | Some (t, r) \<Rightarrow> map_option ((#) t) (tokenize r))
      else if c = 0 \<or> c = 0x0D then None
      else map_option ((#) (Character c)) (tokenize cs))"
  by pat_completeness auto
termination
  by (relation "measure length") (auto dest: lex_tag_length lex_reference_length)

type_synonym frame = "jsstring \<times> (jsstring \<times> jsstring) list \<times> node list"

fun insert_character :: "code_unit \<Rightarrow> node list \<Rightarrow> node list" where
  "insert_character c [] = [Text [c]]"
| "insert_character c [Text t] = [Text (t @ [c])]"
| "insert_character c [n] = [n, Text [c]]"
| "insert_character c (n # ns) = n # insert_character c ns"

fun close_through :: "jsstring \<Rightarrow> frame list \<Rightarrow> node list \<Rightarrow> frame list \<times> node list" where
  "close_through nm [] root = ([], root)"
| "close_through nm [(n, as, cs)] root = ([], root @ [Element n as cs])"
| "close_through nm ((n, as, cs) # (n', as', cs') # fs) root =
     (if n = nm then ((n', as', cs' @ [Element n as cs]) # fs, root)
      else close_through nm ((n', as', cs' @ [Element n as cs]) # fs) root)"

fun in_body :: "frame list \<times> node list \<Rightarrow> token \<Rightarrow> frame list \<times> node list" where
  "in_body ([], root) (Character c) = ([], insert_character c root)"
| "in_body ((n, as, cs) # fs, root) (Character c) = ((n, as, insert_character c cs) # fs, root)"
| "in_body (fs, root) (StartTag nm as) =
     (if nm = utf16 ''li'' \<and> utf16 ''li'' \<in> fst ` set fs
      then (case close_through (utf16 ''li'') fs root of (fs', root') \<Rightarrow> ((nm, as, []) # fs', root'))
      else ((nm, as, []) # fs, root))"
| "in_body (fs, root) (EndTag nm) =
     (if nm = utf16 ''li''
      then (if utf16 ''li'' \<in> fst ` set fs then close_through nm fs root else (fs, root))
      else (case fs of
              [] \<Rightarrow> (fs, root)
            | (n, as, cs) # fs' \<Rightarrow> if n = nm then close_through nm fs root else (fs, root)))"

fun stop_parsing :: "frame list \<Rightarrow> node list \<Rightarrow> node list" where
  "stop_parsing [] root = root"
| "stop_parsing [(n, as, cs)] root = root @ [Element n as cs]"
| "stop_parsing ((n, as, cs) # (n', as', cs') # fs) root =
     stop_parsing ((n', as', cs' @ [Element n as cs]) # fs) root"

definition html_fragment :: "jsstring \<Rightarrow> node list option" where
  "html_fragment s =
     (case tokenize s of
        None \<Rightarrow> None
      | Some ts \<Rightarrow> (case foldl in_body ([], []) ts of (fs, root) \<Rightarrow> Some (stop_parsing fs root)))"

text \<open>
  A parser \<open>P\<close> agrees with this description when it returns the described nodes in the
  three contexts the script parses in, wherever the description says something.
  \<open>reference_parser\<close> is one such parser, to evaluate the script on concrete input.
\<close>

definition agrees :: "fragment_parser \<Rightarrow> bool" where
  "agrees P \<longleftrightarrow>
     (\<forall>s ns. html_fragment s = Some ns \<longrightarrow>
        P (utf16 ''li'') s = ns \<and> P (utf16 ''span'') s = ns \<and> P container_name s = ns)"

definition reference_parser :: fragment_parser where
  "reference_parser ctx s = (case html_fragment s of Some ns \<Rightarrow> ns | None \<Rightarrow> [])"

text \<open>Plain text: no character that starts markup, and none the parser rewrites.\<close>

definition plain :: "jsstring \<Rightarrow> bool" where
  "plain s \<longleftrightarrow> list_all (\<lambda>c. c \<noteq> 0x3C \<and> c \<noteq> 0x26 \<and> c \<noteq> 0 \<and> c \<noteq> 0x0D) s"

section \<open>Notions used to state the properties\<close>

text \<open>
  The element \<open>addItem\<close> builds for the text \<open>s\<close>: an \<open>li\<close> without attributes whose
  children are what the parser makes of \<open>s\<close>, followed by the delete affordance.
\<close>

definition close_button :: "fragment_parser \<Rightarrow> node" where
  "close_button P =
     Element (utf16 ''span'') [(class_attr, utf16 ''close'')] (P (utf16 ''span'') [0xD7])"

definition new_item :: "fragment_parser \<Rightarrow> jsstring \<Rightarrow> node" where
  "new_item P s = Element (utf16 ''li'') [] (P (utf16 ''li'') s @ [close_button P])"

text \<open>A storage that takes every write, and one that takes the first write only.\<close>

definition storage_ok :: storage_behaviour where
  "storage_ok n = True"


definition blank_page :: page where
  "blank_page = \<lparr>input_value = [], listContainer = [], localStorage = Map.empty, effects = []\<rparr>"

text \<open>A list of class tokens as \<open>classList\<close> holds it: no token is empty or has white space.\<close>

definition valid_tokens :: "jsstring list \<Rightarrow> bool" where
  "valid_tokens ts \<longleftrightarrow> (\<forall>t\<in>set ts. t \<noteq> [] \<and> (\<forall>c\<in>set t. \<not> is_ascii_whitespace c))"

text \<open>A page with two items, reached from the blank page by typing and pressing Enter.\<close>

definition sample_page :: page where
  "sample_page = run reference_parser storage_ok
     [Edit (utf16 ''Buy milk''), KeyPress (utf16 ''Enter''),
      Edit (utf16 ''Walk dog''), KeyPress (utf16 ''Enter'')] blank_page"

text \<open>
  An event mutates the list when its handler takes a branch that changes it: Enter on an
  input that is not blank, a click on an \<open>li\<close>, a click on a \<open>span\<close>.
  \<open>mutations\<close> counts such events along a run.
\<close>

fun mutates :: "page \<Rightarrow> event \<Rightarrow> bool" where
  "mutates st (Edit s) = False"
| "mutates st (KeyPress key) = (key = utf16 ''Enter'' \<and> trim (input_value st) \<noteq> [])"
| "mutates st (Click target) =
     (case node_at target (listContainer st) of
        Some n \<Rightarrow> tagName n = utf16 ''LI'' \<or> tagName n = utf16 ''SPAN''
      | None \<Rightarrow> False)"

fun mutations ::
  "fragment_parser \<Rightarrow> storage_behaviour \<Rightarrow> page \<Rightarrow> event list \<Rightarrow> nat" where
  "mutations P S st [] = 0"
| "mutations P S st (ev # evs) =
     (if mutates st ev then 1 else 0) + mutations P S (dispatch P S st ev) evs"

text \<open>The last call of \<open>setItem\<close> the page made, if it made one, succeeded.\<close>

definition last_write_ok :: "storage_behaviour \<Rightarrow> page \<Rightarrow> bool" where
  "last_write_ok S st = (case writes st of 0 \<Rightarrow> True | Suc n \<Rightarrow> S n)"

text \<open>The stored snapshot is the serialisation of the list as it is now.\<close>

definition snapshot_current :: "page \<Rightarrow> bool" where
  "snapshot_current st \<longleftrightarrow>
     localStorage st data_key = Some (innerHTML container_name (listContainer st))"

text \<open>Two runs from a page with text typed in: one with three mutations, one with none.\<close>

definition typed_page :: page where
  "typed_page = blank_page\<lparr>input_value := utf16 ''Buy milk''\<rparr>"



text \<open>
  The delete affordance as \<open>addItem\<close> builds it, and an item as \<open>addItem\<close> builds it
  from plain text and a click leaves it: an \<open>li\<close> with the text and the affordance,
  its class attribute absent, \<open>checked\<close> or empty. \<open>keeps_text\<close> says the text has no
  NUL and no CR, which the parser would drop or rewrite. \<open>item_tokens\<close> are the tokens
  the serialisation of such an item is read as.
\<close>

definition close_node :: node where
  "close_node = Element (utf16 ''span'') [(class_attr, utf16 ''close'')] [Text [0xD7]]"

definition keeps_text :: "jsstring \<Rightarrow> bool" where
  "keeps_text t \<longleftrightarrow> list_all (\<lambda>c. c \<noteq> 0 \<and> c \<noteq> 0x0D) t"

definition simple_item :: "node \<Rightarrow> bool" where
  "simple_item n \<longleftrightarrow>
     (\<exists>as t. n = Element (utf16 ''li'') as [Text t, close_node]
        \<and> trim t \<noteq> [] \<and> keeps_text t
        \<and> (as = [] \<or> as = [(class_attr, utf16 ''checked'')] \<or> as = [(class_attr, [])]))"

definition item_tokens :: "(jsstring \<times> jsstring) list \<Rightarrow> jsstring \<Rightarrow> token list" where
  "item_tokens as t =
     [StartTag (utf16 ''li'') as] @ map Character t @
     [StartTag (utf16 ''span'') [(class_attr, utf16 ''close'')], Character 0xD7,
      EndTag (utf16 ''span''), EndTag (utf16 ''li'')]"

text \<open>
  An event types plain text when it is an edit of the input field to plain text, or no
  edit at all. A simple page holds simple items only, and plain text in its input field.
\<close>

fun plain_event :: "event \<Rightarrow> bool" where
  "plain_event (Edit s) = plain s"
| "plain_event ev = True"

definition simple_page :: "page \<Rightarrow> bool" where
  "simple_page st \<longleftrightarrow> list_all simple_item (listContainer st) \<and> plain (input_value st)"

text \<open>What storage holds under the key, if anything, is the serialisation of simple items.\<close>

definition stored_simple :: "page \<Rightarrow> bool" where
  "stored_simple st \<longleftrightarrow>
     localStorage st data_key = None
     \<or> (\<exists>ns. list_all simple_item ns
            \<and> localStorage st data_key = Some (innerHTML container_name ns))"

text \<open>
  Typing \<open><li>x\<close> and pressing Enter; and the scenario of the specification: add two
  items, then click the first.
\<close>

definition nested_events :: "event list" where
  "nested_events = [Edit (utf16 ''<li>x''), KeyPress (utf16 ''Enter'')]"

definition scenario_events :: "event list" where
  "scenario_events =
     [Edit (utf16 ''Buy milk''), KeyPress (utf16 ''Enter''),
      Edit (utf16 ''Walk dog''), KeyPress (utf16 ''Enter''), Click [0]]"

section \<open>What \<open>addItem\<close> does\<close>

lemma dropWhile_all_iff: "dropWhile Q xs = [] \<longleftrightarrow> (\<forall>x\<in>set xs. Q x)"
  by (induction xs) auto

lemma Ball_dropWhile_iff: "(\<forall>x\<in>set (dropWhile Q s). Q x) \<longleftrightarrow> (\<forall>x\<in>set s. Q x)"
proof
  assume a: "\<forall>x\<in>set (dropWhile Q s). Q x"
  show "\<forall>x\<in>set s. Q x"
  proof (cases "dropWhile Q s")
    case Nil
    then show ?thesis by (simp add: dropWhile_all_iff)
  next
    case (Cons y ys)
    then have "\<not> Q y" using hd_dropWhile[of Q s] by auto
    moreover have "Q y" using a Cons by simp
    ultimately show ?thesis by simp
  qed
next
  assume "\<forall>x\<in>set s. Q x"
  then show "\<forall>x\<in>set (dropWhile Q s). Q x" by (auto dest: set_dropWhileD)
qed

text \<open>The trimmed string is empty exactly when every code unit is white space.\<close>

lemma trim_empty_iff: "trim s = [] \<longleftrightarrow> list_all is_white_space s"
  by (simp add: trim_def dropWhile_all_iff Ball_dropWhile_iff list_all_iff)

lemma addItem_accepts:
  "trim (input_value st) \<noteq> [] \<Longrightarrow>
   addItem P S st =
     saveData S (st\<lparr>listContainer := listContainer st @ [new_item P (input_value st)],
                  input_value := []\<rparr>)"
  by (simp add: addItem_def Let_def createElement_def new_item_def close_button_def)

lemma item_checked_new_item: "\<not> item_checked (new_item P s)"
  by (simp add: item_checked_def classList_def new_item_def)

text \<open>
  C2. When the input is empty or holds white space only, \<open>addItem\<close> shows the alert and
  does nothing else: the page is as before but for the alert, so the list has the same
  length, nothing is written to storage, and the input field keeps its value.
\<close>

theorem addItem_blank_input:
  assumes "list_all is_white_space (input_value st)"
  shows "addItem P S st = st\<lparr>effects := effects st @ [Alert (utf16 ''You must write something!'')]\<rparr>
       \<and> length (items (addItem P S st)) = length (items st)
       \<and> writes (addItem P S st) = writes st
       \<and> input_value (addItem P S st) = input_value st
       \<and> localStorage (addItem P S st) = localStorage st"
  using assms by (simp add: addItem_def trim_empty_iff items_def writes_def)

theorem addItem_blank_input_witness:
  "list_all is_white_space (input_value (blank_page\<lparr>input_value := utf16 ''   ''\<rparr>))
   \<and> addItem reference_parser storage_ok (blank_page\<lparr>input_value := utf16 ''   ''\<rparr>)
       = \<lparr>input_value = utf16 ''   '', listContainer = [], localStorage = Map.empty,
          effects = [Alert (utf16 ''You must write something!'')]\<rparr>"
proof -
  have h: "list_all is_white_space (input_value (blank_page\<lparr>input_value := utf16 ''   ''\<rparr>))"
    by (simp add: utf16_def is_white_space_def)
  from addItem_blank_input[OF h, of reference_parser] h show ?thesis
    by (simp add: blank_page_def)
qed

section \<open>Loading the page\<close>

text \<open>
  C7. When storage holds no snapshot, \<open>showList\<close> leaves the page as it is, so the freshly
  loaded page has the empty list; no alert is shown and nothing is written, in one pass.
\<close>

theorem bootstrap_without_snapshot:
  assumes "localStorage st data_key = None"
  shows "showList P st = st
       \<and> page_load P (localStorage st) =
           \<lparr>input_value = [], listContainer = [], localStorage = localStorage st, effects = []\<rparr>
       \<and> items (page_load P (localStorage st)) = []"
  using assms by (simp add: showList_def page_load_def items_def)

theorem bootstrap_without_snapshot_witness:
  "localStorage blank_page data_key = None
   \<and> showList reference_parser blank_page = blank_page
   \<and> items (page_load reference_parser (localStorage blank_page)) = []"
proof -
  have h: "localStorage blank_page data_key = None" by (simp add: blank_page_def)
  from bootstrap_without_snapshot[OF h, of reference_parser] h show ?thesis by (simp add: items_def)
qed

section \<open>Clicking in the list\<close>

lemma sample_page_list:
  "listContainer sample_page =
     [Element (utf16 ''li'') [] [Text (utf16 ''Buy milk''),
        Element (utf16 ''span'') [(class_attr, utf16 ''close'')] [Text [0xD7]]],
      Element (utf16 ''li'') [] [Text (utf16 ''Walk dog''),
        Element (utf16 ''span'') [(class_attr, utf16 ''close'')] [Text [0xD7]]]]"
  by (simp add: sample_page_def run_def on_keypress_def addItem_def Let_def trim_def is_white_space_def
      createElement_def saveData_def blank_page_def reference_parser_def html_fragment_def utf16_def)

subsection \<open>Class tokens survive being written to the attribute and read back\<close>

lemma split_ws_valid:
  "t \<in> set (split_ws w s) \<Longrightarrow> \<forall>c\<in>set w. \<not> is_ascii_whitespace c \<Longrightarrow>
   t \<noteq> [] \<and> (\<forall>c\<in>set t. \<not> is_ascii_whitespace c)"
proof (induction w s rule: split_ws.induct)
  case (1 w)
  then show ?case by (cases "w = []") simp_all
next
  case (2 w c cs)
  show ?case
  proof (cases "is_ascii_whitespace c")
    case True
    note ws = True
    show ?thesis
    proof (cases "w = []")
      case True
      from 2(4) ws True have "t \<in> set (split_ws [] cs)" by simp
      then show ?thesis using 2(1)[OF ws True] by simp
    next
      case False
      from 2(4) ws False have "t = w \<or> t \<in> set (split_ws [] cs)" by simp
      then show ?thesis
      proof
        assume "t = w" with False 2(5) show ?thesis by simp
      next
        assume "t \<in> set (split_ws [] cs)"
        then show ?thesis using 2(2)[OF ws False] by simp
      qed
    qed
  next
    case False
    from 2(4) False have "t \<in> set (split_ws (w @ [c]) cs)" by simp
    moreover have "\<forall>c\<in>set (w @ [c]). \<not> is_ascii_whitespace c" using False 2(5) by simp
    ultimately show ?thesis using 2(3)[OF False] by blast
  qed
qed

lemma split_ws_word:
  "\<forall>c\<in>set t. \<not> is_ascii_whitespace c \<Longrightarrow> split_ws w (t @ r) = split_ws (w @ t) r"
  by (induction t arbitrary: w) auto

lemma split_join: "valid_tokens ts \<Longrightarrow> split_ws [] (join_spaces ts) = ts"
proof (induction ts rule: join_spaces.induct)
  case 1
  then show ?case by simp
next
  case (2 t)
  then show ?case using split_ws_word[of t "[]" "[]"] by (simp add: valid_tokens_def)
next
  case (3 t v va)
  have "split_ws [] (t @ [0x20] @ join_spaces (v # va)) = split_ws ([] @ t) ([0x20] @ join_spaces (v # va))"
    using 3 by (intro split_ws_word) (simp add: valid_tokens_def)
  also have "\<dots> = t # split_ws [] (join_spaces (v # va))"
    using 3 by (simp add: valid_tokens_def is_ascii_whitespace_def)
  finally show ?case using 3 by (simp add: valid_tokens_def)
qed

lemma ordered_set_distinct: "distinct ts \<Longrightarrow> ordered_set ts = ts"
  by (simp add: ordered_set_def distinct_remdups_id)

lemma distinct_ordered_set: "distinct (ordered_set ts)"
  by (simp add: ordered_set_def)

lemma set_ordered_set: "set (ordered_set ts) = set ts"
  by (simp add: ordered_set_def)

lemma classList_valid: "valid_tokens (classList n) \<and> distinct (classList n)"
  by (auto simp: classList_def valid_tokens_def set_ordered_set distinct_ordered_set
      split: option.splits dest: split_ws_valid)

lemma map_of_set_attr: "map_of (set_attr k v as) k = Some v"
  by (induction as) auto

lemma classList_set_class:
  "valid_tokens ts \<Longrightarrow> distinct ts \<Longrightarrow>
   classList (Element nm (set_attr class_attr (join_spaces ts) as) cs) = ts"
  by (simp add: classList_def map_of_set_attr split_join ordered_set_distinct)

lemma checked_valid: "valid_tokens [utf16 ''checked'']"
  by (simp add: valid_tokens_def utf16_def is_ascii_whitespace_def)

lemma classList_toggle_checked:
  "classList (classList_toggle (utf16 ''checked'') (Element nm as cs)) =
     (if utf16 ''checked'' \<in> set (classList (Element nm as cs))
      then removeAll (utf16 ''checked'') (classList (Element nm as cs))
      else classList (Element nm as cs) @ [utf16 ''checked''])"
proof -
  let ?ts = "classList (Element nm as cs)"
  have v: "valid_tokens ?ts" and d: "distinct ?ts" using classList_valid by auto
  have "valid_tokens (removeAll (utf16 ''checked'') ?ts)" using v by (auto simp: valid_tokens_def)
  moreover have "distinct (removeAll (utf16 ''checked'') ?ts)" using d by (simp add: distinct_removeAll)
  moreover have "valid_tokens (?ts @ [utf16 ''checked''])"
    using v checked_valid by (simp add: valid_tokens_def)
  moreover have "utf16 ''checked'' \<notin> set ?ts \<Longrightarrow> distinct (?ts @ [utf16 ''checked''])" using d by simp
  ultimately show ?thesis
    by (simp add: classList_toggle_def classList_set_class)
qed

lemma item_checked_toggle:
  "item_checked (classList_toggle (utf16 ''checked'') (Element nm as cs)) = (\<not> item_checked (Element nm as cs))"
  by (simp add: item_checked_def classList_toggle_checked)

lemma toggle_is_set_class:
  "\<exists>v. classList_toggle tok (Element nm as cs) = Element nm (set_attr class_attr v as) cs"
  by (cases "tok \<in> set (classList (Element nm as cs))") (auto simp: classList_toggle_def)

lemma tagName_LI_Element: "tagName n = utf16 ''LI'' \<Longrightarrow> \<exists>nm as cs. n = Element nm as cs"
  by (cases n) (simp_all add: utf16_def)

lemma on_click_item:
  assumes "i < length (listContainer st)" "tagName (listContainer st ! i) = utf16 ''LI''"
  shows "on_click S [i] st =
     saveData S (st\<lparr>listContainer :=
       (listContainer st)[i := classList_toggle (utf16 ''checked'') (listContainer st ! i)]\<rparr>)"
proof -
  obtain nm as cs where e: "listContainer st ! i = Element nm as cs"
    using tagName_LI_Element[OF assms(2)] by blast
  with assms show ?thesis by (simp add: on_click_def)
qed

lemma listContainer_saveData: "listContainer (saveData S st) = listContainer st"
  by (simp add: saveData_def)

lemma input_value_saveData: "input_value (saveData S st) = input_value st"
  by (simp add: saveData_def)

lemma tagName_toggle: "tagName (classList_toggle tok n) = tagName n"
  by (cases n) (simp_all add: classList_toggle_def)

lemma item_checked_toggle_LI:
  "tagName n = utf16 ''LI'' \<Longrightarrow>
   item_checked (classList_toggle (utf16 ''checked'') n) = (\<not> item_checked n)"
proof -
  assume "tagName n = utf16 ''LI''"
  then obtain nm as cs where "n = Element nm as cs" using tagName_LI_Element by blast
  then show ?thesis by (simp only: item_checked_toggle)
qed

lemma on_click_item_list:
  assumes "i < length (listContainer st)" "tagName (listContainer st ! i) = utf16 ''LI''"
  shows "listContainer (on_click S [i] st) =
     (listContainer st)[i := classList_toggle (utf16 ''checked'') (listContainer st ! i)]"
  by (simp only: on_click_item[OF assms] listContainer_saveData) simp

text \<open>
  C5. Clicking an item of the list flips its checked flag, and clicking it a second time
  gives the flag the value it had at the start.
\<close>

theorem toggle_twice_restores:
  assumes "i < length (listContainer st)" "tagName (listContainer st ! i) = utf16 ''LI''"
  shows "item_checked (listContainer (on_click S [i] st) ! i) = (\<not> item_checked (listContainer st ! i))
       \<and> item_checked (listContainer (on_click S [i] (on_click S [i] st)) ! i)
           = item_checked (listContainer st ! i)"
proof -
  let ?t = "classList_toggle (utf16 ''checked'')"
  let ?st1 = "on_click S [i] st"
  have n1: "listContainer ?st1 ! i = ?t (listContainer st ! i)"
    by (simp only: on_click_item_list[OF assms] nth_list_update_eq[OF assms(1)])
  have l1: "i < length (listContainer ?st1)"
    by (simp only: on_click_item_list[OF assms] length_list_update assms(1))
  have g1: "tagName (listContainer ?st1 ! i) = utf16 ''LI''"
    by (simp only: n1 tagName_toggle assms(2))
  have n2: "listContainer (on_click S [i] ?st1) ! i = ?t (listContainer ?st1 ! i)"
    by (simp only: on_click_item_list[OF l1 g1] nth_list_update_eq[OF l1])
  have f1: "item_checked (listContainer ?st1 ! i) = (\<not> item_checked (listContainer st ! i))"
    by (simp only: n1 item_checked_toggle_LI[OF assms(2)])
  have f2: "item_checked (listContainer (on_click S [i] ?st1) ! i) = (\<not> item_checked (listContainer ?st1 ! i))"
    by (simp only: n2 item_checked_toggle_LI[OF g1])
  from f1 f2 show ?thesis by blast
qed

theorem toggle_twice_restores_witness:
  "0 < length (listContainer sample_page)
   \<and> tagName (listContainer sample_page ! 0) = utf16 ''LI''
   \<and> \<not> item_checked (listContainer sample_page ! 0)
   \<and> item_checked (listContainer (on_click storage_ok [0] sample_page) ! 0)
   \<and> \<not> item_checked (listContainer (on_click storage_ok [0] (on_click storage_ok [0] sample_page)) ! 0)"
proof -
  have h1: "0 < length (listContainer sample_page)" by (simp add: sample_page_list)
  have h2: "tagName (listContainer sample_page ! 0) = utf16 ''LI''"
    by (simp add: sample_page_list to_ascii_upper_def utf16_def)
  have f: "\<not> item_checked (listContainer sample_page ! 0)"
    by (simp add: sample_page_list item_checked_def classList_def)
  from toggle_twice_restores[OF h1 h2] h1 h2 f show ?thesis by blast
qed

lemma toggle_is_setAttribute: "\<exists>v. classList_toggle tok n = setAttribute class_attr v n"
  by (cases "tok \<in> set (classList n)") (auto simp: classList_toggle_def)

lemma item_text_setAttribute: "item_text (setAttribute k v n) = item_text n"
  by (cases n) simp_all

lemma length_items: "length (items st) = length (listContainer st)"
  by (simp add: items_def)

lemma nth_items:
  "j < length (listContainer st) \<Longrightarrow>
   items st ! j = (item_text (listContainer st ! j), item_checked (listContainer st ! j))"
  by (simp add: items_def)

text \<open>
  C10. Clicking an item rewrites the class attribute of that one element and nothing else
  in the list: the list keeps its length, every item keeps its text and its place, every
  other item keeps its flag, the clicked item's flag flips, and the input field is not
  touched.
\<close>

theorem toggle_changes_only_the_flag:
  assumes "i < length (listContainer st)" "tagName (listContainer st ! i) = utf16 ''LI''"
  shows "(\<exists>v. listContainer (on_click S [i] st) =
              (listContainer st)[i := setAttribute class_attr v (listContainer st ! i)])
       \<and> length (items (on_click S [i] st)) = length (items st)
       \<and> map fst (items (on_click S [i] st)) = map fst (items st)
       \<and> (\<forall>j. j < length (items st) \<longrightarrow> j \<noteq> i \<longrightarrow> items (on_click S [i] st) ! j = items st ! j)
       \<and> snd (items (on_click S [i] st) ! i) = (\<not> snd (items st ! i))
       \<and> input_value (on_click S [i] st) = input_value st"
proof -
  let ?cs = "listContainer st"
  let ?cs' = "listContainer (on_click S [i] st)"
  obtain v where v: "classList_toggle (utf16 ''checked'') (?cs ! i) = setAttribute class_attr v (?cs ! i)"
    using toggle_is_setAttribute by blast
  have c: "?cs' = ?cs[i := setAttribute class_attr v (?cs ! i)]"
    by (simp only: on_click_item_list[OF assms] v)
  have len: "length ?cs' = length ?cs" by (simp only: c length_list_update)
  have other: "\<And>j. j < length ?cs \<Longrightarrow> j \<noteq> i \<Longrightarrow> ?cs' ! j = ?cs ! j"
    by (simp only: c) simp
  have own: "?cs' ! i = setAttribute class_attr v (?cs ! i)"
    by (simp only: c nth_list_update_eq[OF assms(1)])
  have same_text: "\<And>j. j < length ?cs \<Longrightarrow> item_text (?cs' ! j) = item_text (?cs ! j)"
  proof -
    fix j assume j: "j < length ?cs"
    show "item_text (?cs' ! j) = item_text (?cs ! j)"
    proof (cases "j = i")
      case True
      then show ?thesis by (simp only: own item_text_setAttribute)
    next
      case False
      show ?thesis by (simp only: other[OF j False])
    qed
  qed
  have texts: "map fst (items (on_click S [i] st)) = map fst (items st)"
  proof (rule nth_equalityI)
    show "length (map fst (items (on_click S [i] st))) = length (map fst (items st))"
      by (simp add: length_items len)
  next
    fix j assume "j < length (map fst (items (on_click S [i] st)))"
    then have j: "j < length ?cs" by (simp add: length_items len)
    then have j': "j < length ?cs'" by (simp only: len)
    show "map fst (items (on_click S [i] st)) ! j = map fst (items st) ! j"
      using j j' by (simp add: length_items nth_items same_text)
  qed
  have flag: "snd (items (on_click S [i] st) ! i) = (\<not> snd (items st ! i))"
  proof -
    have "i < length ?cs'" using assms(1) by (simp only: len)
    then have "snd (items (on_click S [i] st) ! i) = item_checked (?cs' ! i)"
      by (simp add: nth_items)
    also have "\<dots> = (\<not> item_checked (?cs ! i))"
      by (simp only: own flip: v) (rule item_checked_toggle_LI[OF assms(2)])
    finally show ?thesis using assms(1) by (simp add: nth_items)
  qed
  have others: "\<forall>j. j < length (items st) \<longrightarrow> j \<noteq> i \<longrightarrow> items (on_click S [i] st) ! j = items st ! j"
  proof (intro allI impI)
    fix j assume "j < length (items st)" and ne: "j \<noteq> i"
    then have j: "j < length ?cs" by (simp add: length_items)
    then have j': "j < length ?cs'" by (simp only: len)
    show "items (on_click S [i] st) ! j = items st ! j"
      by (simp only: nth_items[OF j] nth_items[OF j'] other[OF j ne])
  qed
  have inp: "input_value (on_click S [i] st) = input_value st"
    by (simp only: on_click_item[OF assms] input_value_saveData) simp
  from c have "\<exists>v. ?cs' = ?cs[i := setAttribute class_attr v (?cs ! i)]" by blast
  with len texts others flag inp show ?thesis by (simp add: length_items)
qed

theorem toggle_changes_only_the_flag_witness:
  "1 < length (listContainer sample_page)
   \<and> tagName (listContainer sample_page ! 1) = utf16 ''LI''
   \<and> map fst (items (on_click storage_ok [1] sample_page)) = [utf16 ''Buy milk'', utf16 ''Walk dog'']
   \<and> items (on_click storage_ok [1] sample_page) ! 0 = (utf16 ''Buy milk'', False)
   \<and> snd (items (on_click storage_ok [1] sample_page) ! 1)"
proof -
  have h1: "1 < length (listContainer sample_page)" by (simp add: sample_page_list)
  have h2: "tagName (listContainer sample_page ! 1) = utf16 ''LI''"
    by (simp add: sample_page_list to_ascii_upper_def utf16_def)
  have i: "items sample_page = [(utf16 ''Buy milk'', False), (utf16 ''Walk dog'', False)]"
    by (simp add: items_def sample_page_list item_checked_def classList_def is_close_def
        to_ascii_upper_def class_attr_def utf16_def)
  from toggle_changes_only_the_flag[OF h1 h2] h1 h2 show ?thesis by (simp add: i)
qed

section \<open>Deleting an item\<close>

lemma tagName_SPAN_Element: "tagName n = utf16 ''SPAN'' \<Longrightarrow> \<exists>nm as cs. n = Element nm as cs"
  by (cases n) (simp_all add: utf16_def)

lemma LI_not_SPAN: "utf16 ''SPAN'' \<noteq> utf16 ''LI''"
  by (simp add: utf16_def)

lemma on_click_span:
  assumes "node_at target (listContainer st) = Some sp" "tagName sp = utf16 ''SPAN''"
  shows "on_click S target st =
     saveData S (st\<lparr>listContainer := remove_at (butlast target) (listContainer st)\<rparr>)"
proof -
  obtain nm as cs where e: "sp = Element nm as cs"
    using tagName_SPAN_Element[OF assms(2)] by blast
  have t: "tagName (Element nm as cs) = utf16 ''SPAN''" using assms(2) e by simp
  show ?thesis
    by (simp only: on_click_def assms(1) e option.case node.case t LI_not_SPAN if_False if_True simp_thms)
qed

lemma node_at_child_bound: "node_at [i, j] ns = Some n \<Longrightarrow> i < length ns"
  by (simp split: if_splits)

text \<open>
  C6. Clicking the delete affordance of an item, a \<open>span\<close> that is a child of the
  \<open>i\<close>-th item, takes that item out of the list: the list is one shorter, and the
  other items are as before, nodes and so text and flag, in the same order.
\<close>

theorem delete_removes_one:
  assumes "node_at [i, j] (listContainer st) = Some sp" "tagName sp = utf16 ''SPAN''"
  shows "listContainer (on_click S [i, j] st) =
           take i (listContainer st) @ drop (Suc i) (listContainer st)
       \<and> length (items (on_click S [i, j] st)) + 1 = length (items st)
       \<and> items (on_click S [i, j] st) = take i (items st) @ drop (Suc i) (items st)"
proof -
  have i: "i < length (listContainer st)" using node_at_child_bound[OF assms(1)] .
  have c: "listContainer (on_click S [i, j] st) =
           take i (listContainer st) @ drop (Suc i) (listContainer st)"
    by (simp only: on_click_span[OF assms] listContainer_saveData) simp
  have "items (on_click S [i, j] st) = take i (items st) @ drop (Suc i) (items st)"
    by (simp only: items_def c map_append take_map drop_map)
  moreover have "length (items (on_click S [i, j] st)) + 1 = length (items st)"
    using i by (simp only: length_items c) simp
  ultimately show ?thesis using c by simp
qed

theorem delete_removes_one_witness:
  "node_at [0, 1] (listContainer sample_page) =
     Some (Element (utf16 ''span'') [(class_attr, utf16 ''close'')] [Text [0xD7]])
   \<and> tagName (Element (utf16 ''span'') [(class_attr, utf16 ''close'')] [Text [0xD7]]) = utf16 ''SPAN''
   \<and> listContainer (on_click storage_ok [0, 1] sample_page) =
       [Element (utf16 ''li'') [] [Text (utf16 ''Walk dog''),
          Element (utf16 ''span'') [(class_attr, utf16 ''close'')] [Text [0xD7]]]]"
proof -
  have h1: "node_at [0, 1] (listContainer sample_page) =
     Some (Element (utf16 ''span'') [(class_attr, utf16 ''close'')] [Text [0xD7]])"
    by (simp add: sample_page_list)
  have h2: "tagName (Element (utf16 ''span'') [(class_attr, utf16 ''close'')] [Text [0xD7]]) = utf16 ''SPAN''"
    by (simp add: to_ascii_upper_def utf16_def)
  from delete_removes_one[OF h1 h2] h1 h2 show ?thesis by (simp add: sample_page_list)
qed

section \<open>Persistence\<close>

lemma writes_saveData: "writes (saveData S st) = Suc (writes st)"
  by (simp add: saveData_def writes_def)

lemma effects_saveData:
  "effects (saveData S st) =
     effects st @ SetItem data_key (innerHTML container_name (listContainer (saveData S st))) #
       (if S (writes st) then [] else [Uncaught (utf16 ''QuotaExceededError'')])"
  by (simp add: saveData_def)

lemma localStorage_saveData:
  "localStorage (saveData S st) =
     (if S (writes st)
      then (localStorage st)(data_key \<mapsto> innerHTML container_name (listContainer (saveData S st)))
      else localStorage st)"
  by (simp add: saveData_def)

lemma on_click_cases:
  "(\<exists>st'. on_click S target st = saveData S st' \<and> effects st' = effects st
         \<and> localStorage st' = localStorage st \<and> mutates st (Click target))
   \<or> (on_click S target st = st \<and> \<not> mutates st (Click target))"
proof (cases "node_at target (listContainer st)")
  case None
  then show ?thesis by (simp add: on_click_def)
next
  case (Some n)
  show ?thesis
  proof (cases n)
    case (Text t)
    with Some show ?thesis by (simp add: on_click_def utf16_def)
  next
    case (Comment d)
    with Some show ?thesis by (simp add: on_click_def utf16_def)
  next
    case (Element nm as cs)
    show ?thesis
    proof (cases "tagName n = utf16 ''LI''")
      case True
      with Some Element show ?thesis by (auto simp: on_click_def)
    next
      case False
      note notli = False
      show ?thesis
      proof (cases "tagName n = utf16 ''SPAN''")
        case True
        with Some Element notli show ?thesis by (auto simp: on_click_def)
      next
        case False
        with Some Element notli show ?thesis by (auto simp: on_click_def)
      qed
    qed
  qed
qed

lemma dispatch_cases:
  "(\<exists>st'. dispatch P S st ev = saveData S st' \<and> effects st' = effects st
         \<and> localStorage st' = localStorage st \<and> mutates st ev)
   \<or> (listContainer (dispatch P S st ev) = listContainer st
       \<and> localStorage (dispatch P S st ev) = localStorage st
       \<and> writes (dispatch P S st ev) = writes st \<and> \<not> mutates st ev)"
proof (cases ev)
  case (Edit s)
  then show ?thesis by (simp add: writes_def)
next
  case (KeyPress key)
  show ?thesis
  proof (cases "key = utf16 ''Enter'' \<and> trim (input_value st) \<noteq> []")
    case True
    then have "dispatch P S st ev = saveData S (st\<lparr>listContainer := listContainer st @ [new_item P (input_value st)],
                  input_value := []\<rparr>)"
      using KeyPress by (simp add: on_keypress_def addItem_accepts)
    with True KeyPress show ?thesis by auto
  next
    case False
    then show ?thesis using KeyPress by (auto simp: on_keypress_def addItem_def writes_def)
  qed
next
  case (Click target)
  then show ?thesis using on_click_cases[of S target st] by auto
qed

lemma writes_cong: "effects a = effects b \<Longrightarrow> writes a = writes b"
  by (simp add: writes_def)

lemma dispatch_mutating:
  assumes "mutates st ev"
  shows "S (writes st) \<Longrightarrow> snapshot_current (dispatch P S st ev)"
    and "effects (dispatch P S st ev) =
           effects st @ SetItem data_key (innerHTML container_name (listContainer (dispatch P S st ev))) #
             (if S (writes st) then [] else [Uncaught (utf16 ''QuotaExceededError'')])"
    and "writes (dispatch P S st ev) = Suc (writes st)"
    and "\<not> S (writes st) \<Longrightarrow> localStorage (dispatch P S st ev) = localStorage st"
proof -
  obtain st' where s: "dispatch P S st ev = saveData S st'" and e: "effects st' = effects st"
    and l: "localStorage st' = localStorage st"
    using dispatch_cases[of P S st ev] assms by blast
  have w: "writes st' = writes st" using e by (rule writes_cong)
  show "S (writes st) \<Longrightarrow> snapshot_current (dispatch P S st ev)"
    by (simp add: s snapshot_current_def localStorage_saveData w)
  show "effects (dispatch P S st ev) =
           effects st @ SetItem data_key (innerHTML container_name (listContainer (dispatch P S st ev))) #
             (if S (writes st) then [] else [Uncaught (utf16 ''QuotaExceededError'')])"
    by (simp only: s effects_saveData e w)
  show "writes (dispatch P S st ev) = Suc (writes st)"
    by (simp only: s writes_saveData w)
  show "\<not> S (writes st) \<Longrightarrow> localStorage (dispatch P S st ev) = localStorage st"
    by (simp add: s localStorage_saveData w l)
qed

lemma dispatch_idle:
  assumes "\<not> mutates st ev"
  shows "listContainer (dispatch P S st ev) = listContainer st"
    and "localStorage (dispatch P S st ev) = localStorage st"
    and "writes (dispatch P S st ev) = writes st"
  using dispatch_cases[of P S st ev] assms by blast+

lemma dispatch_storage:
  "localStorage (dispatch P S st ev) = localStorage st
   \<or> localStorage (dispatch P S st ev) =
       (localStorage st)(data_key \<mapsto> innerHTML container_name (listContainer (dispatch P S st ev)))"
proof -
  from dispatch_cases[of P S st ev] show ?thesis
  proof
    assume "\<exists>st'. dispatch P S st ev = saveData S st' \<and> effects st' = effects st
         \<and> localStorage st' = localStorage st \<and> mutates st ev"
    then obtain st' where s: "dispatch P S st ev = saveData S st'"
      and l: "localStorage st' = localStorage st" by blast
    show ?thesis by (simp add: s localStorage_saveData l)
  next
    assume "listContainer (dispatch P S st ev) = listContainer st
       \<and> localStorage (dispatch P S st ev) = localStorage st
       \<and> writes (dispatch P S st ev) = writes st \<and> \<not> mutates st ev"
    then show ?thesis by simp
  qed
qed

lemma run_Cons: "run P S (ev # evs) st = run P S evs (dispatch P S st ev)"
  by (simp add: run_def)

lemma run_Nil: "run P S [] st = st"
  by (simp add: run_def)

lemma run_snoc: "run P S (evs @ [ev]) st = dispatch P S (run P S evs st) ev"
  by (simp add: run_def)

lemma mutations_snoc:
  "mutations P S st (evs @ [ev]) =
     mutations P S st evs + (if mutates (run P S evs st) ev then 1 else 0)"
  by (induction evs arbitrary: st) (simp_all add: run_Nil run_Cons)


lemma run_after_mutation:
  "0 < mutations P S st evs \<Longrightarrow> last_write_ok S (run P S evs st) \<Longrightarrow>
   snapshot_current (run P S evs st)"
proof (induction evs rule: rev_induct)
  case Nil
  then show ?case by simp
next
  case (snoc ev evs)
  let ?r = "run P S evs st"
  show ?case
  proof (cases "mutates ?r ev")
    case True
    have "writes (dispatch P S ?r ev) = Suc (writes ?r)" using True by (rule dispatch_mutating(3))
    with snoc.prems(2) have "S (writes ?r)" by (simp add: run_snoc last_write_ok_def)
    then have "snapshot_current (dispatch P S ?r ev)" using True dispatch_mutating(1) by blast
    then show ?thesis by (simp only: run_snoc)
  next
    case False
    note idle = dispatch_idle[OF False, of P S]
    from snoc.prems(1) False have m: "0 < mutations P S st evs" by (simp add: mutations_snoc)
    from snoc.prems(2) have "last_write_ok S ?r" by (simp add: run_snoc last_write_ok_def idle(3))
    with m have "snapshot_current ?r" by (rule snoc.IH)
    then show ?thesis by (simp add: run_snoc snapshot_current_def idle)
  qed
qed

lemma run_without_mutation:
  "mutations P S st evs = 0 \<Longrightarrow>
   localStorage (run P S evs st) = localStorage st \<and> listContainer (run P S evs st) = listContainer st"
proof (induction evs arbitrary: st)
  case Nil
  then show ?case by (simp add: run_Nil)
next
  case (Cons ev evs)
  then have m: "\<not> mutates st ev" and r: "mutations P S (dispatch P S st ev) evs = 0"
    by (auto split: if_splits)
  show ?case using Cons.IH[OF r] by (simp add: run_Cons dispatch_idle[OF m])
qed




section \<open>Saving and loading the list\<close>

subsection \<open>The serialisation of simple items is read back as it was\<close>

lemma tokenize_unit:
  "c \<noteq> 0 \<Longrightarrow> c \<noteq> 0x0D \<Longrightarrow>
   tokenize (escape_unit False c @ r) = map_option ((#) (Character c)) (tokenize r)"
  by (simp add: lex_reference_def utf16_def)

lemma tokenize_escape:
  "keeps_text t \<Longrightarrow>
   tokenize (escape False t @ r) = map_option ((@) (map Character t)) (tokenize r)"
proof (induction t)
  case Nil
  then show ?case by (simp add: escape_def option.map_ident)
next
  case (Cons c t)
  then have c: "c \<noteq> 0" "c \<noteq> 0x0D" and t: "keeps_text t" by (simp_all add: keeps_text_def)
  have "escape False (c # t) @ r = escape_unit False c @ (escape False t @ r)"
    by (simp add: escape_def)
  then have "tokenize (escape False (c # t) @ r) =
      map_option ((#) (Character c)) (tokenize (escape False t @ r))"
    by (simp only: tokenize_unit[OF c])
  also have "\<dots> = map_option ((@) (map Character (c # t))) (tokenize r)"
    by (simp only: Cons.IH[OF t]) (cases "tokenize r"; simp)
  finally show ?case .
qed

lemma tokenize_li_open:
  "as = [] \<or> as = [(class_attr, utf16 ''checked'')] \<or> as = [(class_attr, [])] \<Longrightarrow>
   tokenize ([0x3C] @ utf16 ''li'' @ concat (map serialize_attr as) @ [0x3E] @ r) =
     map_option ((#) (StartTag (utf16 ''li'') as)) (tokenize r)"
  by (elim disjE)
     (simp_all add: lex_tag_def lex_tag_rest_def lex_attr_value_def serialize_attr_def escape_def
      class_attr_def utf16_def)

lemma tokenize_close_node:
  "tokenize (serialize_node (utf16 ''li'') close_node @ r) =
     map_option ((@) [StartTag (utf16 ''span'') [(class_attr, utf16 ''close'')], Character 0xD7,
        EndTag (utf16 ''span'')]) (tokenize r)"
  by (cases "tokenize r")
     (simp_all add: close_node_def lex_tag_def lex_tag_rest_def lex_attr_value_def serialize_attr_def
      escape_def class_attr_def utf16_def void_elements_def raw_text_elements_def)

lemma tokenize_li_close:
  "tokenize (utf16 ''</li>'' @ r) = map_option ((#) (EndTag (utf16 ''li''))) (tokenize r)"
  by (simp add: lex_tag_def utf16_def)


lemma tokenize_item:
  assumes "keeps_text t"
    and "as = [] \<or> as = [(class_attr, utf16 ''checked'')] \<or> as = [(class_attr, [])]"
  shows "tokenize (serialize_node container_name (Element (utf16 ''li'') as [Text t, close_node]) @ r) =
     map_option ((@) (item_tokens as t)) (tokenize r)"
proof -
  have nv: "utf16 ''li'' \<notin> set void_elements" "utf16 ''li'' \<notin> set raw_text_elements"
    by (simp_all add: void_elements_def raw_text_elements_def utf16_def)
  have s: "serialize_node container_name (Element (utf16 ''li'') as [Text t, close_node]) @ r =
      [0x3C] @ utf16 ''li'' @ concat (map serialize_attr as) @ [0x3E] @
        (escape False t @ (serialize_node (utf16 ''li'') close_node @ (utf16 ''</li>'' @ r)))"
    using nv by (simp add: utf16_def)
  show ?thesis
    by (simp only: s tokenize_li_open[OF assms(2)] tokenize_escape[OF assms(1)]
        tokenize_close_node tokenize_li_close)
       (cases "tokenize r"; simp add: item_tokens_def)
qed

lemma insert_character_after_text:
  "insert_character c (ns @ [Text u]) = ns @ [Text (u @ [c])]"
proof (induction ns)
  case Nil
  show ?case by simp
next
  case (Cons n ns)
  then show ?case by (cases "ns @ [Text u]") simp_all
qed

lemma foldl_insert_character:
  "foldl (\<lambda>ns c. insert_character c ns) (ns @ [Text u]) t = ns @ [Text (u @ t)]"
  by (induction t arbitrary: u) (simp_all add: insert_character_after_text)

lemma foldl_insert_character_Nil:
  "t \<noteq> [] \<Longrightarrow> foldl (\<lambda>ns c. insert_character c ns) [] t = [Text t]"
  using foldl_insert_character[of "[]" "[hd t]" "tl t"] by (cases t) simp_all

lemma in_body_characters_open:
  "foldl in_body ((n, as, cs) # fs, root) (map Character t) =
     ((n, as, foldl (\<lambda>ns c. insert_character c ns) cs t) # fs, root)"
  by (induction t arbitrary: cs) simp_all

lemma in_body_characters_root:
  "foldl in_body ([], root) (map Character t) =
     ([], foldl (\<lambda>ns c. insert_character c ns) root t)"
  by (induction t arbitrary: root) simp_all

lemma in_body_item:
  assumes "t \<noteq> []"
  shows "foldl in_body ([], root) (item_tokens as t @ ts) =
     foldl in_body ([], root @ [Element (utf16 ''li'') as [Text t, close_node]]) ts"
proof -
  define A where "A = [StartTag (utf16 ''li'') as] @ map Character t"
  define B where "B = [StartTag (utf16 ''span'') [(class_attr, utf16 ''close'')], Character 0xD7,
        EndTag (utf16 ''span''), EndTag (utf16 ''li'')]"
  have ne: "utf16 ''span'' \<noteq> utf16 ''li''" by (simp add: utf16_def)
  have 1: "foldl in_body ([], root) A = ([(utf16 ''li'', as, [Text t])], root)"
    unfolding A_def
    by (simp only: foldl_append) (simp add: in_body_characters_open foldl_insert_character_Nil[OF assms])
  have 2: "foldl in_body ([(utf16 ''li'', as, [Text t])], root) B =
      ([], root @ [Element (utf16 ''li'') as [Text t, close_node]])"
    unfolding B_def using ne by (simp add: close_node_def)
  have e: "item_tokens as t @ ts = A @ B @ ts"
    by (simp add: item_tokens_def A_def B_def)
  show ?thesis by (simp only: e foldl_append 1 2)
qed

lemma simple_item_text_nonempty: "trim t \<noteq> [] \<Longrightarrow> t \<noteq> []"
  by (auto simp: trim_def)

lemma tokenize_simple_items:
  "list_all simple_item ns \<Longrightarrow>
   \<exists>ts. tokenize (innerHTML container_name ns @ r) = map_option ((@) ts) (tokenize r)
      \<and> (\<forall>root ts'. foldl in_body ([], root) (ts @ ts') = foldl in_body ([], root @ ns) ts')"
proof (induction ns)
  case Nil
  have z: "tokenize (innerHTML container_name [] @ r) = map_option ((@) []) (tokenize r)"
    by (cases "tokenize r") (simp_all add: innerHTML_def)
  show ?case
    apply (rule exI[of _ "[]"])
    apply (rule conjI)
     apply (rule z)
    apply simp
    done
next
  case (Cons n ns)
  then obtain as t where n: "n = Element (utf16 ''li'') as [Text t, close_node]"
    and t: "trim t \<noteq> []" "keeps_text t"
    and a: "as = [] \<or> as = [(class_attr, utf16 ''checked'')] \<or> as = [(class_attr, [])]"
    by (auto simp: simple_item_def)
  from Cons obtain ts where ts: "tokenize (innerHTML container_name ns @ r) = map_option ((@) ts) (tokenize r)"
    and b: "\<forall>root ts'. foldl in_body ([], root) (ts @ ts') = foldl in_body ([], root @ ns) ts'"
    by auto
  have "innerHTML container_name (n # ns) @ r =
        serialize_node container_name n @ (innerHTML container_name ns @ r)"
    by (simp add: innerHTML_def)
  then have "tokenize (innerHTML container_name (n # ns) @ r) =
        map_option ((@) (item_tokens as t)) (map_option ((@) ts) (tokenize r))"
    by (simp only: n tokenize_item[OF t(2) a] ts)
  also have "\<dots> = map_option ((@) (item_tokens as t @ ts)) (tokenize r)"
    by (cases "tokenize r") simp_all
  finally have 1: "tokenize (innerHTML container_name (n # ns) @ r) =
        map_option ((@) (item_tokens as t @ ts)) (tokenize r)" .
  have 2: "\<forall>root ts'. foldl in_body ([], root) ((item_tokens as t @ ts) @ ts') =
        foldl in_body ([], root @ n # ns) ts'"
  proof (intro allI)
    fix root ts'
    have "foldl in_body ([], root) ((item_tokens as t @ ts) @ ts') =
          foldl in_body ([], root) (item_tokens as t @ (ts @ ts'))" by simp
    also have "\<dots> = foldl in_body ([], root @ [n]) (ts @ ts')"
      by (simp only: n in_body_item[OF simple_item_text_nonempty[OF t(1)]])
    also have "\<dots> = foldl in_body ([], (root @ [n]) @ ns) ts'" using b by blast
    finally show "foldl in_body ([], root) ((item_tokens as t @ ts) @ ts') =
        foldl in_body ([], root @ n # ns) ts'" by simp
  qed
  from 1 2 show ?case by blast
qed

lemma html_fragment_simple_items:
  assumes "list_all simple_item ns"
  shows "html_fragment (innerHTML container_name ns) = Some ns"
proof -
  obtain ts where ts: "tokenize (innerHTML container_name ns @ []) = map_option ((@) ts) (tokenize [])"
    and b: "\<forall>root ts'. foldl in_body ([], root) (ts @ ts') = foldl in_body ([], root @ ns) ts'"
    using tokenize_simple_items[OF assms, of "[]"] by blast
  have t: "tokenize (innerHTML container_name ns) = Some ts" using ts by simp
  have "foldl in_body ([], []) (ts @ []) = foldl in_body ([], [] @ ns) []" using b by blast
  then have f: "foldl in_body ([], []) ts = ([], ns)" by simp
  show ?thesis by (simp add: html_fragment_def t f)
qed

lemma tokenize_plain: "plain s \<Longrightarrow> tokenize s = Some (map Character s)"
  by (induction s) (simp_all add: plain_def)

lemma html_fragment_plain:
  assumes "plain s" "s \<noteq> []"
  shows "html_fragment s = Some [Text s]"
  by (simp add: html_fragment_def tokenize_plain[OF assms(1)] in_body_characters_root
      foldl_insert_character_Nil[OF assms(2)])

lemma html_fragment_times: "html_fragment [0xD7] = Some [Text [0xD7]]"
  by (simp add: html_fragment_def)

subsection \<open>Plain text keeps the page simple\<close>

lemma plain_keeps_text: "plain s \<Longrightarrow> keeps_text s"
  by (induction s) (simp_all add: plain_def keeps_text_def)

lemma agrees_plain:
  "agrees P \<Longrightarrow> plain s \<Longrightarrow> s \<noteq> [] \<Longrightarrow> P (utf16 ''li'') s = [Text s]"
  using html_fragment_plain[of s] by (simp add: agrees_def)

lemma agrees_close_button: "agrees P \<Longrightarrow> close_button P = close_node"
  using html_fragment_times by (simp add: agrees_def close_button_def close_node_def)

lemma agrees_container:
  "agrees P \<Longrightarrow> html_fragment s = Some ns \<Longrightarrow> P container_name s = ns"
  by (simp add: agrees_def)

lemma simple_item_new:
  assumes "agrees P" "plain v" "trim v \<noteq> []"
  shows "new_item P v = Element (utf16 ''li'') [] [Text v, close_node]"
    and "simple_item (new_item P v)"
proof -
  have ne: "v \<noteq> []" using assms(3) by (rule simple_item_text_nonempty)
  show n: "new_item P v = Element (utf16 ''li'') [] [Text v, close_node]"
    by (simp add: new_item_def agrees_plain[OF assms(1,2) ne] agrees_close_button[OF assms(1)])
  show "simple_item (new_item P v)"
    using assms(3) plain_keeps_text[OF assms(2)] by (simp add: n simple_item_def)
qed

lemma classList_no_class: "classList (Element nm [] cs) = []"
  by (simp add: classList_def)

lemma classList_checked: "classList (Element nm [(class_attr, utf16 ''checked'')] cs) = [utf16 ''checked'']"
  by (simp add: classList_def ordered_set_def utf16_def is_ascii_whitespace_def)

lemma classList_empty_class: "classList (Element nm [(class_attr, [])] cs) = []"
  by (simp add: classList_def ordered_set_def)

lemma simple_item_toggle:
  assumes "simple_item n"
  shows "simple_item (classList_toggle (utf16 ''checked'') n)"
proof -
  obtain as t where n: "n = Element (utf16 ''li'') as [Text t, close_node]"
    and t: "trim t \<noteq> []" "keeps_text t"
    and a: "as = [] \<or> as = [(class_attr, utf16 ''checked'')] \<or> as = [(class_attr, [])]"
    using assms by (auto simp: simple_item_def)
  from a show ?thesis
  proof (elim disjE)
    assume "as = []"
    then show ?thesis using t by (simp add: n classList_toggle_def classList_no_class simple_item_def)
  next
    assume "as = [(class_attr, utf16 ''checked'')]"
    then show ?thesis using t by (simp add: n classList_toggle_def classList_checked simple_item_def)
  next
    assume "as = [(class_attr, [])]"
    then show ?thesis using t by (simp add: n classList_toggle_def classList_empty_class simple_item_def)
  qed
qed

lemma tagName_simple_item: "simple_item n \<Longrightarrow> tagName n = utf16 ''LI''"
  by (auto simp: simple_item_def to_ascii_upper_def utf16_def)

lemma tagName_close_node: "tagName close_node = utf16 ''SPAN''"
  by (simp add: close_node_def to_ascii_upper_def utf16_def)

lemma node_at_in_item:
  assumes "node_at (j # p) [Text t, close_node] = Some n"
  shows "tagName n \<noteq> utf16 ''LI'' \<and> (tagName n = utf16 ''SPAN'' \<longrightarrow> j = 1 \<and> p = [])"
proof (cases p)
  case Nil
  with assms have j: "j < 2" and n: "n = [Text t, close_node] ! j" by (auto split: if_splits)
  from j have "j = 0 \<or> j = 1" by auto
  then show ?thesis
  proof
    assume "j = 0"
    with n show ?thesis by (simp add: utf16_def)
  next
    assume "j = 1"
    with n Nil show ?thesis by (simp add: tagName_close_node LI_not_SPAN)
  qed
next
  case (Cons k q)
  with assms have j: "j < 2" by (auto split: if_splits)
  then have "j = 0 \<or> j = 1" by auto
  then show ?thesis
  proof
    assume "j = 0"
    with assms Cons show ?thesis by simp
  next
    assume j1: "j = 1"
    with assms Cons have a: "node_at (k # q) [Text [0xD7]] = Some n" by (simp add: close_node_def)
    show ?thesis
    proof (cases q)
      case Nil
      with a have "n = Text [0xD7]" by (auto split: if_splits)
      then show ?thesis by (simp add: utf16_def)
    next
      case (Cons k' q')
      with a show ?thesis by (auto split: if_splits)
    qed
  qed
qed

lemma target_in_simple_list:
  assumes "list_all simple_item cs" "node_at target cs = Some n"
  shows "(tagName n = utf16 ''LI'' \<longrightarrow> (\<exists>i. target = [i] \<and> i < length cs))
       \<and> (tagName n = utf16 ''SPAN'' \<longrightarrow> (\<exists>i. target = [i, 1] \<and> i < length cs))"
proof (cases target)
  case Nil
  with assms(2) show ?thesis by simp
next
  case (Cons i p)
  note target = Cons
  show ?thesis
  proof (cases p)
    case Nil
    with assms(2) target have i: "i < length cs" and n: "n = cs ! i" by (auto split: if_splits)
    then have "simple_item n" using assms(1) by (simp add: list_all_length)
    then have "tagName n = utf16 ''LI''" by (rule tagName_simple_item)
    with i target Nil show ?thesis by (simp add: LI_not_SPAN[symmetric])
  next
    case (Cons j q)
    with assms(2) target have i: "i < length cs" by (auto split: if_splits)
    then have "simple_item (cs ! i)" using assms(1) by (simp add: list_all_length)
    then obtain as t where e: "cs ! i = Element (utf16 ''li'') as [Text t, close_node]"
      by (auto simp: simple_item_def)
    with assms(2) target Cons i have "node_at (j # q) [Text t, close_node] = Some n" by simp
    from node_at_in_item[OF this] i target Cons show ?thesis by simp
  qed
qed

lemma list_all_update: "list_all Q xs \<Longrightarrow> Q y \<Longrightarrow> list_all Q (xs[i := y])"
  using set_update_subset_insert[of xs i y] by (auto simp: list_all_iff)

lemma list_all_remove: "list_all Q xs \<Longrightarrow> list_all Q (take i xs @ drop (Suc i) xs)"
  by (auto simp: list_all_iff dest: in_set_takeD in_set_dropD)

lemma on_click_simple:
  assumes "list_all simple_item (listContainer st)"
  shows "list_all simple_item (listContainer (on_click S target st))"
proof (cases "node_at target (listContainer st)")
  case None
  then show ?thesis using assms by (simp add: on_click_def)
next
  case (Some n)
  note tg = target_in_simple_list[OF assms Some]
  show ?thesis
  proof (cases "tagName n = utf16 ''LI''")
    case True
    with tg obtain i where i: "target = [i]" "i < length (listContainer st)" by blast
    with Some have n: "n = listContainer st ! i" by simp
    have "simple_item (listContainer st ! i)" using assms i(2) by (simp add: list_all_length)
    then have "simple_item (classList_toggle (utf16 ''checked'') (listContainer st ! i))"
      by (rule simple_item_toggle)
    with assms have "list_all simple_item
        ((listContainer st)[i := classList_toggle (utf16 ''checked'') (listContainer st ! i)])"
      by (rule list_all_update)
    then show ?thesis using True n i on_click_item_list[of i st S] by simp
  next
    case False
    note notli = False
    show ?thesis
    proof (cases "tagName n = utf16 ''SPAN''")
      case True
      with tg obtain i where i: "target = [i, 1]" "i < length (listContainer st)" by blast
      have "listContainer (on_click S target st) = remove_at (butlast target) (listContainer st)"
        by (simp only: on_click_span[OF Some True] listContainer_saveData) simp
      then show ?thesis using i list_all_remove[OF assms, of i] by simp
    next
      case False
      have "\<not> mutates st (Click target)" using Some notli False by simp
      then have "on_click S target st = st" using on_click_cases[of S target st] by blast
      then show ?thesis using assms by simp
    qed
  qed
qed

lemma input_value_on_click: "input_value (on_click S target st) = input_value st"
  by (simp add: on_click_def saveData_def split: option.splits node.splits)

lemma plain_Nil: "plain []"
  by (simp add: plain_def)

lemma dispatch_simple:
  assumes "agrees P" "simple_page st" "plain_event ev"
  shows "simple_page (dispatch P S st ev)"
proof (cases ev)
  case (Edit s)
  with assms show ?thesis by (simp add: simple_page_def)
next
  case (KeyPress key)
  show ?thesis
  proof (cases "key = utf16 ''Enter'' \<and> trim (input_value st) \<noteq> []")
    case True
    then have "simple_item (new_item P (input_value st))"
      using assms(1,2) simple_item_new(2) by (simp add: simple_page_def)
    then show ?thesis using True KeyPress assms(2)
      by (simp add: on_keypress_def addItem_accepts saveData_def simple_page_def plain_Nil)
  next
    case False
    then show ?thesis using KeyPress assms(2)
      by (auto simp: on_keypress_def addItem_def simple_page_def)
  qed
next
  case (Click target)
  then show ?thesis using assms(2) on_click_simple[of st S target]
    by (simp add: simple_page_def input_value_on_click)
qed

lemma run_simple:
  "agrees P \<Longrightarrow> simple_page st \<Longrightarrow> list_all plain_event evs \<Longrightarrow> simple_page (run P S evs st)"
  by (induction evs arbitrary: st) (simp_all add: run_Nil run_Cons dispatch_simple)

lemma simple_blank_page: "simple_page blank_page"
  by (simp add: simple_page_def blank_page_def plain_Nil)

lemma page_load_simple:
  assumes "agrees P" "list_all simple_item (listContainer st)"
    and "localStorage st data_key = None \<and> listContainer st = [] \<or> snapshot_current st"
  shows "listContainer (page_load P (localStorage st)) = listContainer st"
proof -
  from assms(3) show ?thesis
  proof
    assume "localStorage st data_key = None \<and> listContainer st = []"
    then show ?thesis by (simp add: page_load_def showList_def)
  next
    assume c: "snapshot_current st"
    have h: "html_fragment (innerHTML container_name (listContainer st)) = Some (listContainer st)"
      using assms(2) by (rule html_fragment_simple_items)
    show ?thesis
    proof (cases "innerHTML container_name (listContainer st) = []")
      case True
      with h have "listContainer st = []" by (simp add: html_fragment_def)
      then show ?thesis using c True by (simp add: page_load_def showList_def snapshot_current_def)
    next
      case False
      then show ?thesis using c agrees_container[OF assms(1) h]
        by (simp add: page_load_def showList_def snapshot_current_def)
    qed
  qed
qed

lemma writes_blank_page: "writes blank_page = 0"
  by (simp add: writes_def blank_page_def)

lemma run_snapshot:
  assumes "last_write_ok S (run P S evs blank_page)"
  shows "localStorage (run P S evs blank_page) data_key = None
           \<and> listContainer (run P S evs blank_page) = []
         \<or> snapshot_current (run P S evs blank_page)"
proof (cases "mutations P S blank_page evs = 0")
  case True
  then show ?thesis using run_without_mutation[of P S blank_page evs] by (simp add: blank_page_def)
next
  case False
  then show ?thesis using run_after_mutation[of P S blank_page evs] assms by simp
qed

lemma dispatch_stored_simple:
  assumes "agrees P" "simple_page st" "stored_simple st" "plain_event ev"
  shows "stored_simple (dispatch P S st ev)"
proof -
  have l: "list_all simple_item (listContainer (dispatch P S st ev))"
    using dispatch_simple[OF assms(1,2,4), of S] by (simp add: simple_page_def)
  from dispatch_storage[of P S st ev] show ?thesis
  proof
    assume "localStorage (dispatch P S st ev) = localStorage st"
    then show ?thesis using assms(3) by (simp add: stored_simple_def)
  next
    assume "localStorage (dispatch P S st ev) =
       (localStorage st)(data_key \<mapsto> innerHTML container_name (listContainer (dispatch P S st ev)))"
    then have "localStorage (dispatch P S st ev) data_key =
       Some (innerHTML container_name (listContainer (dispatch P S st ev)))" by simp
    with l show ?thesis unfolding stored_simple_def by blast
  qed
qed

lemma run_stored_simple:
  "agrees P \<Longrightarrow> simple_page st \<Longrightarrow> stored_simple st \<Longrightarrow> list_all plain_event evs \<Longrightarrow>
   stored_simple (run P S evs st)"
  by (induction evs arbitrary: st)
     (simp_all add: run_Nil run_Cons dispatch_simple dispatch_stored_simple)

lemma stored_simple_blank_page: "stored_simple blank_page"
  by (simp add: stored_simple_def blank_page_def)

lemma page_load_stored_simple:
  assumes "agrees P" "stored_simple st"
  shows "list_all simple_item (listContainer (page_load P (localStorage st)))"
proof (cases "localStorage st data_key")
  case None
  then show ?thesis by (simp add: page_load_def showList_def)
next
  case (Some v)
  with assms(2) obtain ns where ns: "list_all simple_item ns" and v: "v = innerHTML container_name ns"
    by (auto simp: stored_simple_def)
  have h: "html_fragment (innerHTML container_name ns) = Some ns"
    using ns by (rule html_fragment_simple_items)
  show ?thesis
  proof (cases "v = []")
    case True
    with Some show ?thesis by (simp add: page_load_def showList_def)
  next
    case False
    then show ?thesis using Some v ns agrees_container[OF assms(1) h]
      by (simp add: page_load_def showList_def)
  qed
qed

lemma agrees_reference_parser: "agrees reference_parser"
  by (simp add: agrees_def reference_parser_def)

lemma is_close_close_node: "is_close close_node"
  by (simp add: is_close_def close_node_def to_ascii_upper_def utf16_def)

lemma not_is_close_Text: "\<not> is_close (Text t)"
  by (simp add: is_close_def utf16_def)

lemma item_text_simple:
  "item_text (Element nm as [Text t, close_node]) = t"
  by (simp add: is_close_close_node not_is_close_Text)

lemma simple_item_text:
  assumes "simple_item n"
  shows "trim (item_text n) \<noteq> []"
proof -
  obtain as t where n: "n = Element (utf16 ''li'') as [Text t, close_node]" and t: "trim t \<noteq> []"
    using assms by (auto simp: simple_item_def)
  show ?thesis by (simp only: n item_text_simple t not_False_eq_True)
qed

lemma page_load_after_plain_run:
  assumes "agrees P" "list_all plain_event evs" "last_write_ok S (run P S evs blank_page)"
  shows "listContainer (page_load P (localStorage (run P S evs blank_page)))
           = listContainer (run P S evs blank_page)"
proof -
  have "simple_page (run P S evs blank_page)"
    using run_simple[OF assms(1) simple_blank_page assms(2)] .
  then have "list_all simple_item (listContainer (run P S evs blank_page))"
    by (simp add: simple_page_def)
  from page_load_simple[OF assms(1) this run_snapshot[OF assms(3)]] show ?thesis .
qed

lemma page_load_plain_run_simple:
  assumes "agrees P" "list_all plain_event evs"
  shows "list_all simple_item (listContainer (page_load P (localStorage (run P S evs blank_page))))"
  using page_load_stored_simple[OF assms(1)
      run_stored_simple[OF assms(1) simple_blank_page stored_simple_blank_page assms(2)]] .

lemma on_click_effects:
  "effects (on_click S target st) = effects st
   \<or> effects (on_click S target st) =
       effects st @ SetItem data_key (innerHTML container_name (listContainer (on_click S target st))) #
         (if S (writes st) then [] else [Uncaught (utf16 ''QuotaExceededError'')])"
proof -
  from on_click_cases[of S target st] show ?thesis
  proof
    assume "\<exists>st'. on_click S target st = saveData S st' \<and> effects st' = effects st
         \<and> localStorage st' = localStorage st \<and> mutates st (Click target)"
    then obtain st' where s: "on_click S target st = saveData S st'" "effects st' = effects st" by blast
    have w: "writes st' = writes st" using s(2) by (rule writes_cong)
    have "effects (on_click S target st) =
       effects st @ SetItem data_key (innerHTML container_name (listContainer (on_click S target st))) #
         (if S (writes st) then [] else [Uncaught (utf16 ''QuotaExceededError'')])"
      by (simp only: s effects_saveData w)
    then show ?thesis by blast
  next
    assume "on_click S target st = st \<and> \<not> mutates st (Click target)"
    then show ?thesis by simp
  qed
qed

text \<open>The definitions a concrete run is evaluated with.\<close>

lemmas eval_defs = run_def storage_ok_def writes_def on_keypress_def addItem_def Let_def trim_def is_white_space_def
      createElement_def saveData_def blank_page_def reference_parser_def html_fragment_def utf16_def
      on_click_def to_ascii_upper_def classList_toggle_def classList_def ordered_set_def class_attr_def
      page_load_def showList_def innerHTML_def serialize_attr_def escape_def container_name_def
      void_elements_def raw_text_elements_def data_key_def lex_tag_def lex_tag_rest_def
      lex_attr_value_def lex_reference_def items_def item_checked_def is_close_def
      is_ascii_whitespace_def

subsection \<open>The round trip\<close>

text \<open>
  C3 as stated fails: text is inserted as markup. After typing \<open><li>x\<close> and Enter the
  list has one item, an \<open>li\<close> holding a nested \<open>li\<close>; its serialisation
  \<open><li><li>x</li><span class="close">...</span></li>\<close> is read back, in a \<open>ul\<close>, as
  three children, since an \<open>li\<close> start tag closes the \<open>li\<close> that is open.
\<close>

theorem reload_changes_nested_list:
  "html_fragment (utf16 ''<li>x'') = Some [Element (utf16 ''li'') [] [Text (utf16 ''x'')]]
   \<and> items (run reference_parser storage_ok nested_events blank_page) = [(utf16 ''x'', False)]
   \<and> localStorage (run reference_parser storage_ok nested_events blank_page) data_key
       = Some (utf16 ''<li><li>x</li><span class=\"close\">'' @ [0xD7] @ utf16 ''</span></li>'')
   \<and> html_fragment (utf16 ''<li><li>x</li><span class=\"close\">'' @ [0xD7] @ utf16 ''</span></li>'')
       = Some [Element (utf16 ''li'') [] [],
               Element (utf16 ''li'') [] [Text (utf16 ''x'')],
               Element (utf16 ''span'') [(class_attr, utf16 ''close'')] [Text [0xD7]]]
   \<and> items (page_load reference_parser (localStorage (run reference_parser storage_ok nested_events blank_page)))
       = [([], False), (utf16 ''x'', False), ([0xD7], False)]"
  by (simp add: nested_events_def eval_defs)

text \<open>
  C3, amended. For a parser that agrees with the description above, in every state reached
  from the blank page by events that type plain text only (no \<open><\<close>, \<open>&\<close>, NUL or CR
  in the input field), when the last save of the run succeeded, loading the stored
  snapshot gives back the list as it is: the same nodes, so the same texts and flags in
  the same order.
\<close>

theorem reload_reproduces_plain_list:
  assumes "agrees P" "list_all plain_event evs" "last_write_ok S (run P S evs blank_page)"
  shows "listContainer (page_load P (localStorage (run P S evs blank_page)))
           = listContainer (run P S evs blank_page)
       \<and> items (page_load P (localStorage (run P S evs blank_page))) = items (run P S evs blank_page)"
  using page_load_after_plain_run[OF assms] by (simp add: items_def)

theorem reload_reproduces_plain_list_witness:
  "agrees reference_parser \<and> list_all plain_event scenario_events
   \<and> last_write_ok storage_ok (run reference_parser storage_ok scenario_events blank_page)
   \<and> items (page_load reference_parser (localStorage (run reference_parser storage_ok scenario_events blank_page)))
       = [(utf16 ''Buy milk'', True), (utf16 ''Walk dog'', False)]"
proof -
  have h: "list_all plain_event scenario_events"
    by (simp add: scenario_events_def plain_def utf16_def)
  have l: "last_write_ok storage_ok (run reference_parser storage_ok scenario_events blank_page)"
    by (simp add: last_write_ok_def storage_ok_def split: nat.splits)
  have i: "items (run reference_parser storage_ok scenario_events blank_page)
       = [(utf16 ''Buy milk'', True), (utf16 ''Walk dog'', False)]"
    by (simp add: scenario_events_def eval_defs)
  from reload_reproduces_plain_list[OF agrees_reference_parser h l] agrees_reference_parser h l i
  show ?thesis by simp
qed

section \<open>The text of an item\<close>

text \<open>
  C8 as stated fails: \<open>addItem\<close> validates the input string, and the item holds what the
  parser makes of it. The input \<open>&nbsp;\<close> is not blank and makes an item whose text is
  one no-break space, which \<open>trim\<close> removes.
\<close>

theorem markup_can_leave_blank_text:
  "trim (utf16 ''&nbsp;'') \<noteq> []
   \<and> html_fragment (utf16 ''&nbsp;'') = Some [Text [0xA0]]
   \<and> items (run reference_parser storage_ok [Edit (utf16 ''&nbsp;''), KeyPress (utf16 ''Enter'')] blank_page)
       = [([0xA0], False)]
   \<and> trim [0xA0] = []"
  by (simp add: eval_defs)

text \<open>
  C8, amended. For a parser that agrees with the description above, in every state reached
  from the blank page by events that type plain text only, and in the page loaded from the
  snapshot of such a state, every item's text is non-empty after trimming. The text is
  checked in \<open>addItem\<close> only: a click never shows the alert, its one possible effect
  is the write of the list, with the uncaught exception when the write fails.
\<close>

theorem plain_items_have_text:
  assumes "agrees P" "list_all plain_event evs"
  shows "list_all (\<lambda>it. trim (fst it) \<noteq> []) (items (run P S evs blank_page))
       \<and> list_all (\<lambda>it. trim (fst it) \<noteq> [])
           (items (page_load P (localStorage (run P S evs blank_page))))
       \<and> (effects (on_click S target st) = effects st
          \<or> effects (on_click S target st) =
              effects st @ SetItem data_key (innerHTML container_name (listContainer (on_click S target st))) #
                (if S (writes st) then [] else [Uncaught (utf16 ''QuotaExceededError'')]))"
proof -
  have "simple_page (run P S evs blank_page)"
    using run_simple[OF assms(1) simple_blank_page assms(2)] .
  then have s: "list_all simple_item (listContainer (run P S evs blank_page))"
    by (simp add: simple_page_def)
  then have 1: "list_all (\<lambda>it. trim (fst it) \<noteq> []) (items (run P S evs blank_page))"
    by (simp add: items_def list_all_iff simple_item_text)
  have "list_all simple_item (listContainer (page_load P (localStorage (run P S evs blank_page))))"
    using assms by (rule page_load_plain_run_simple)
  then have 2: "list_all (\<lambda>it. trim (fst it) \<noteq> [])
           (items (page_load P (localStorage (run P S evs blank_page))))"
    by (simp add: items_def list_all_iff simple_item_text)
  from 1 2 on_click_effects[of S target st] show ?thesis by blast
qed

theorem plain_items_have_text_witness:
  "agrees reference_parser \<and> list_all plain_event scenario_events
   \<and> list_all (\<lambda>it. trim (fst it) \<noteq> []) (items (run reference_parser storage_ok scenario_events blank_page))"
proof -
  have h: "list_all plain_event scenario_events"
    by (simp add: scenario_events_def plain_def utf16_def)
  from plain_items_have_text[OF agrees_reference_parser h, of storage_ok] agrees_reference_parser h
  show ?thesis by simp
qed

text \<open>
  C9 as stated fails: for the input \<open>&amp;\<close> the text of the created item is \<open>&\<close>,
  not the input string.
\<close>

theorem markup_text_differs_from_input:
  "trim (utf16 ''&amp;'') \<noteq> []
   \<and> html_fragment (utf16 ''&amp;'') = Some [Text [0x26]]
   \<and> item_text (last (listContainer
         (addItem reference_parser storage_ok (blank_page\<lparr>input_value := utf16 ''&amp;''\<rparr>)))) = [0x26]
   \<and> [0x26] \<noteq> utf16 ''&amp;''"
  by (simp add: eval_defs)

text \<open>
  C9, amended. For a parser that agrees with the description above and an input of plain
  text that is not blank, the item \<open>addItem\<close> creates holds the input string as it was
  entered, untrimmed: leading and trailing white space is kept.
\<close>

theorem plain_text_kept_as_entered:
  assumes "agrees P" "plain (input_value st)" "trim (input_value st) \<noteq> []"
  shows "listContainer (addItem P S st) =
           listContainer st @ [Element (utf16 ''li'') [] [Text (input_value st), close_node]]
       \<and> item_text (last (listContainer (addItem P S st))) = input_value st"
proof -
  have l: "listContainer (addItem P S st) =
           listContainer st @ [Element (utf16 ''li'') [] [Text (input_value st), close_node]]"
    using assms by (simp add: addItem_accepts listContainer_saveData simple_item_new(1))
  have "item_text (last (listContainer (addItem P S st))) = input_value st"
    by (simp only: l last_snoc item_text_simple)
  with l show ?thesis by blast
qed

theorem plain_text_kept_as_entered_witness:
  "agrees reference_parser
   \<and> plain (input_value (blank_page\<lparr>input_value := utf16 ''  Buy milk ''\<rparr>))
   \<and> trim (input_value (blank_page\<lparr>input_value := utf16 ''  Buy milk ''\<rparr>)) \<noteq> []
   \<and> item_text (last (listContainer
         (addItem reference_parser storage_ok (blank_page\<lparr>input_value := utf16 ''  Buy milk ''\<rparr>))))
       = utf16 ''  Buy milk ''"
proof -
  have h1: "plain (input_value (blank_page\<lparr>input_value := utf16 ''  Buy milk ''\<rparr>))"
    by (simp add: plain_def utf16_def)
  have h2: "trim (input_value (blank_page\<lparr>input_value := utf16 ''  Buy milk ''\<rparr>)) \<noteq> []"
    by (simp add: trim_def is_white_space_def utf16_def)
  have e: "input_value (blank_page\<lparr>input_value := utf16 ''  Buy milk ''\<rparr>) = utf16 ''  Buy milk ''"
    by simp
  have "item_text (last (listContainer
         (addItem reference_parser storage_ok (blank_page\<lparr>input_value := utf16 ''  Buy milk ''\<rparr>))))
       = utf16 ''  Buy milk ''"
    using plain_text_kept_as_entered[OF agrees_reference_parser h1 h2, THEN conjunct2]
    by (simp only: e)
  with agrees_reference_parser h1 h2 show ?thesis by blast
qed

section \<open>The item \<open>addItem\<close> appends\<close>

text \<open>
  C1 as stated fails in one part: the new entry need not reflect the text, since the text
  is read as markup. The input \<open><span></span>\<close> is not blank and makes an item whose
  text is empty.
\<close>

theorem markup_entry_without_text:
  "trim (utf16 ''<span></span>'') \<noteq> []
   \<and> html_fragment (utf16 ''<span></span>'') = Some [Element (utf16 ''span'') [] []]
   \<and> listContainer (addItem reference_parser storage_ok
         (blank_page\<lparr>input_value := utf16 ''<span></span>''\<rparr>))
       = [Element (utf16 ''li'') []
            [Element (utf16 ''span'') [] [],
             Element (utf16 ''span'') [(class_attr, utf16 ''close'')] [Text [0xD7]]]]
   \<and> items (addItem reference_parser storage_ok
         (blank_page\<lparr>input_value := utf16 ''<span></span>''\<rparr>)) = [([], False)]"
  by (simp add: eval_defs)

text \<open>
  C1, amended. When the input is not empty after trimming, \<open>addItem\<close> appends exactly one
  item at the end of the list: an \<open>li\<close> holding what the parser makes of the input read
  as markup, followed by the delete affordance. The item is unchecked, the list is one
  longer, the input field is cleared, and the last thing \<open>addItem\<close> does is call
  \<open>setItem\<close> with the serialised list, which is stored when the call succeeds. When the
  input is plain text (no \<open><\<close>, \<open>&\<close>, NUL or CR) and the parser agrees with the
  description above, the item holds the input as its one text node: its text is the input.
\<close>

theorem addItem_appends_one:
  assumes "trim (input_value st) \<noteq> []"
  shows "listContainer (addItem P S st) = listContainer st @ [new_item P (input_value st)]
       \<and> \<not> item_checked (new_item P (input_value st))
       \<and> length (items (addItem P S st)) = length (items st) + 1
       \<and> input_value (addItem P S st) = []
       \<and> effects (addItem P S st) =
           effects st @ SetItem data_key (innerHTML container_name (listContainer (addItem P S st))) #
             (if S (writes st) then [] else [Uncaught (utf16 ''QuotaExceededError'')])
       \<and> (S (writes st) \<longrightarrow>
            localStorage (addItem P S st) data_key =
              Some (innerHTML container_name (listContainer (addItem P S st))))
       \<and> (agrees P \<longrightarrow> plain (input_value st) \<longrightarrow>
            new_item P (input_value st) =
              Element (utf16 ''li'') [] [Text (input_value st), close_node]
            \<and> item_text (new_item P (input_value st)) = input_value st)"
proof -
  let ?st' = "st\<lparr>listContainer := listContainer st @ [new_item P (input_value st)],
                  input_value := []\<rparr>"
  have a: "addItem P S st = saveData S ?st'" using assms by (rule addItem_accepts)
  have w: "writes ?st' = writes st" by (simp add: writes_def)
  have 1: "listContainer (addItem P S st) = listContainer st @ [new_item P (input_value st)]"
    by (simp add: a listContainer_saveData)
  have 2: "input_value (addItem P S st) = []"
    by (simp add: a input_value_saveData)
  have 3: "effects (addItem P S st) =
           effects st @ SetItem data_key (innerHTML container_name (listContainer (addItem P S st))) #
             (if S (writes st) then [] else [Uncaught (utf16 ''QuotaExceededError'')])"
    by (simp only: a effects_saveData w) simp
  have 4: "S (writes st) \<longrightarrow>
            localStorage (addItem P S st) data_key =
              Some (innerHTML container_name (listContainer (addItem P S st)))"
    by (simp add: a localStorage_saveData w)
  have 5: "agrees P \<longrightarrow> plain (input_value st) \<longrightarrow>
            new_item P (input_value st) =
              Element (utf16 ''li'') [] [Text (input_value st), close_node]
            \<and> item_text (new_item P (input_value st)) = input_value st"
  proof (intro impI)
    assume g: "agrees P" and p: "plain (input_value st)"
    have n: "new_item P (input_value st) =
              Element (utf16 ''li'') [] [Text (input_value st), close_node]"
      using g p assms by (rule simple_item_new(1))
    show "new_item P (input_value st) =
              Element (utf16 ''li'') [] [Text (input_value st), close_node]
            \<and> item_text (new_item P (input_value st)) = input_value st"
      by (simp only: n item_text_simple simp_thms)
  qed
  have 6: "length (items (addItem P S st)) = length (items st) + 1"
    by (simp add: items_def 1)
  from 1 2 3 4 5 6 item_checked_new_item[of P "input_value st"] show ?thesis by blast
qed

theorem addItem_appends_one_witness:
  "trim (input_value typed_page) \<noteq> []
   \<and> storage_ok (writes typed_page)
   \<and> agrees reference_parser
   \<and> plain (input_value typed_page)
   \<and> listContainer (addItem reference_parser storage_ok typed_page)
       = [Element (utf16 ''li'') [] [Text (utf16 ''Buy milk''), close_node]]
   \<and> item_text (Element (utf16 ''li'') [] [Text (utf16 ''Buy milk''), close_node]) = utf16 ''Buy milk''
   \<and> input_value (addItem reference_parser storage_ok typed_page) = []
   \<and> effects (addItem reference_parser storage_ok typed_page) =
       [SetItem data_key (innerHTML container_name
          [Element (utf16 ''li'') [] [Text (utf16 ''Buy milk''), close_node]])]
   \<and> localStorage (addItem reference_parser storage_ok typed_page) data_key =
       Some (innerHTML container_name
          [Element (utf16 ''li'') [] [Text (utf16 ''Buy milk''), close_node]])"
proof -
  have h: "trim (input_value typed_page) \<noteq> []"
    by (simp add: typed_page_def trim_def utf16_def is_white_space_def)
  have o: "storage_ok (writes typed_page)" by (simp add: storage_ok_def)
  have p: "plain (input_value typed_page)" by (simp add: typed_page_def plain_def utf16_def)
  have v: "input_value typed_page = utf16 ''Buy milk''" "listContainer typed_page = []"
    "effects typed_page = []"
    by (simp_all add: typed_page_def blank_page_def)
  note t = addItem_appends_one[OF h, of reference_parser storage_ok]
  from t o agrees_reference_parser p
  have n: "new_item reference_parser (input_value typed_page) =
      Element (utf16 ''li'') [] [Text (input_value typed_page), close_node]"
    and x: "item_text (new_item reference_parser (input_value typed_page)) = input_value typed_page"
    by blast+
  from t have l: "listContainer (addItem reference_parser storage_ok typed_page) =
      listContainer typed_page @ [new_item reference_parser (input_value typed_page)]" by blast
  have n': "new_item reference_parser (utf16 ''Buy milk'') =
      Element (utf16 ''li'') [] [Text (utf16 ''Buy milk''), close_node]"
    using n by (simp only: v)
  have l': "listContainer (addItem reference_parser storage_ok typed_page)
       = [Element (utf16 ''li'') [] [Text (utf16 ''Buy milk''), close_node]]"
    by (simp only: l v n' append_Nil)
  have x': "item_text (Element (utf16 ''li'') [] [Text (utf16 ''Buy milk''), close_node]) = utf16 ''Buy milk''"
    using x by (simp only: v n')
  from t have i: "input_value (addItem reference_parser storage_ok typed_page) = []" by blast
  from t o have e: "effects (addItem reference_parser storage_ok typed_page) =
       [SetItem data_key (innerHTML container_name
          [Element (utf16 ''li'') [] [Text (utf16 ''Buy milk''), close_node]])]"
    by (simp only: l' v; simp)
  from t o have s: "localStorage (addItem reference_parser storage_ok typed_page) data_key =
       Some (innerHTML container_name
          [Element (utf16 ''li'') [] [Text (utf16 ''Buy milk''), close_node]])"
    by (simp only: l'; simp)
  from h o agrees_reference_parser p l' x' i e s show ?thesis by blast
qed

end
